theory Spec2Isabelle
  imports Complex_Main "HOL-Library.Sublist"
begin

section \<open>JavaScript strings\<close>

text \<open>
  A string is a list of characters. A \<^typ>\<open>char\<close> stands for the UTF-16 code unit with the
  same number, so the model covers the strings whose code units are below 256 (ASCII and
  Latin-1). Numbers are JavaScript doubles in the source; they are modelled by \<^typ>\<open>real\<close>,
  with the arithmetic of the source written out operation by operation.
\<close>

definition code :: "char \<Rightarrow> nat" where
  "code c = of_char c"

text \<open>The class \<open>\w\<close> of a regular expression: \<open>[A-Za-z0-9_]\<close>.\<close>

definition isWordChar :: "char \<Rightarrow> bool" where
  "isWordChar c =
     ((65 \<le> code c \<and> code c \<le> 90) \<or> (97 \<le> code c \<and> code c \<le> 122) \<or>
      (48 \<le> code c \<and> code c \<le> 57) \<or> code c = 95)"

text \<open>
  The class \<open>\s\<close>, which is also what \<open>trim\<close> strips: tab, line feed, vertical tab, form
  feed, carriage return, space and, in Latin-1, the no-break space.
\<close>

definition isSpace :: "char \<Rightarrow> bool" where
  "isSpace c = ((9 \<le> code c \<and> code c \<le> 13) \<or> code c = 32 \<or> code c = 160)"

text \<open>
  \<open>String.prototype.toLowerCase\<close> on one code unit: the ASCII capitals and the Latin-1
  capitals (192 to 222 without the multiplication sign 215) move up by 32.
\<close>

definition lowerChar :: "char \<Rightarrow> char" where
  "lowerChar c =
     (if (65 \<le> code c \<and> code c \<le> 90) \<or> (192 \<le> code c \<and> code c \<le> 222 \<and> code c \<noteq> 215)
      then char_of (code c + 32) else c)"

text \<open>
  The same three functions on the eight bits of a character (the lowest first), for
  evaluation: the letters \<open>A\<close> to \<open>Z\<close> and \<open>a\<close> to \<open>z\<close> are the codes whose lowest five
  bits are 1 to 26, and adding 32 sets the sixth bit.
\<close>

definition letterBits :: "bool \<Rightarrow> bool \<Rightarrow> bool \<Rightarrow> bool \<Rightarrow> bool \<Rightarrow> bool" where
  "letterBits b0 b1 b2 b3 b4 =
     ((b0 \<or> b1 \<or> b2 \<or> b3 \<or> b4) \<and> \<not> (b4 \<and> b3 \<and> (b2 \<or> (b1 \<and> b0))))"

lemma code_Char:
  "code (Char b0 b1 b2 b3 b4 b5 b6 b7) =
     of_bool b0 + 2 * (of_bool b1 + 2 * (of_bool b2 + 2 * (of_bool b3 + 2 * (of_bool b4 +
       2 * (of_bool b5 + 2 * (of_bool b6 + 2 * of_bool b7))))))"
  by (simp add: code_def)

lemma isWordChar_Char [code]:
  "isWordChar (Char b0 b1 b2 b3 b4 b5 b6 b7) =
     (\<not> b7 \<and>
      (if b6 then (letterBits b0 b1 b2 b3 b4 \<or> (\<not> b5 \<and> b4 \<and> b3 \<and> b2 \<and> b1 \<and> b0))
       else (b5 \<and> b4 \<and> (\<not> b3 \<or> (\<not> b2 \<and> \<not> b1)))))"
  unfolding isWordChar_def code_Char letterBits_def
  by (cases b0; cases b1; cases b2; cases b3; cases b4; cases b5; cases b6; cases b7; simp)

lemma isSpace_Char [code]:
  "isSpace (Char b0 b1 b2 b3 b4 b5 b6 b7) =
     (\<not> b6 \<and> \<not> b4 \<and>
      (if b5 then \<not> b0 \<and> \<not> b1 \<and> \<not> b2 \<and> \<not> b3
       else \<not> b7 \<and> b3 \<and> (b0 \<or> b1 \<or> b2) \<and> \<not> (b2 \<and> b1)))"
  unfolding isSpace_def code_Char
  by (cases b0; cases b1; cases b2; cases b3; cases b4; cases b5; cases b6; cases b7; simp)

lemma lowerChar_Char [code]:
  "lowerChar (Char b0 b1 b2 b3 b4 b5 b6 b7) =
     (if b6 \<and> \<not> b5 \<and>
         (if b7 then \<not> (b0 \<and> b1 \<and> b2 \<and> b3 \<and> b4) \<and> \<not> (b0 \<and> b1 \<and> b2 \<and> \<not> b3 \<and> b4)
          else letterBits b0 b1 b2 b3 b4)
      then Char b0 b1 b2 b3 b4 True b6 b7
      else Char b0 b1 b2 b3 b4 b5 b6 b7)"
  unfolding lowerChar_def code_Char letterBits_def
  by (cases b0; cases b1; cases b2; cases b3; cases b4; cases b5; cases b6; cases b7;
      simp add: char_of_def bit_Suc_0_iff bit_0)

definition toLowerCase :: "string \<Rightarrow> string" where
  "toLowerCase s = map lowerChar s"

definition trim :: "string \<Rightarrow> string" where
  "trim s = rev (dropWhile isSpace (rev (dropWhile isSpace s)))"

text \<open>
  \<open>s.split(/\s+/)\<close>: every maximal run of white space is one separator; a separator at
  the start or the end of the string leaves an empty string there, and the empty string
  splits into one empty string.
\<close>

function splitWs :: "string \<Rightarrow> string list" where
  "splitWs [] = [[]]"
| "splitWs (c # cs) =
     (if isSpace c then [] # splitWs (dropWhile isSpace cs)
      else (case splitWs cs of [] \<Rightarrow> [[c]] | t # ts \<Rightarrow> (c # t) # ts))"
  by pat_completeness auto
termination
  by (relation "measure length") (auto simp: length_dropWhile_le le_imp_less_Suc)

text \<open>\<open>tokens.join(' ')\<close>.\<close>

fun joinSpace :: "string list \<Rightarrow> string" where
  "joinSpace [] = []"
| "joinSpace [t] = t"
| "joinSpace (t # ts) = t @ CHR '' '' # joinSpace ts"

text \<open>\<open>s.indexOf(k)\<close>, with \<open>None\<close> for -1, and \<open>s.includes(k)\<close>.\<close>

fun startsWith :: "string \<Rightarrow> string \<Rightarrow> bool" where
  "startsWith s [] = True"
| "startsWith [] (k # ks) = False"
| "startsWith (c # cs) (k # ks) = (if c = k then startsWith cs ks else False)"

fun indexOf :: "string \<Rightarrow> string \<Rightarrow> nat option" where
  "indexOf [] k = (if k = [] then Some 0 else None)"
| "indexOf (c # cs) k =
     (if startsWith (c # cs) k then Some 0 else map_option Suc (indexOf cs k))"

definition includes_str :: "string \<Rightarrow> string \<Rightarrow> bool" where
  "includes_str s k = (indexOf s k \<noteq> None)"

section \<open>The BM25 index\<close>

record Document =
  doc_id :: string
  content :: string
  data :: "(string \<times> string) list"

record SearchResult =
  document :: Document
  score :: real

record BM25 =
  documents :: "Document list"
  avgDocLength :: real
  docFrequencies :: "string \<rightharpoonup> nat"
  tokenizedDocs :: "string list list"

definition k1 :: real where
  "k1 = 1.5"

definition b :: real where
  "b = 0.75"

definition tokenize :: "string \<Rightarrow> string list" where
  "tokenize text =
     filter (\<lambda>token. length token > 1)
       (splitWs (map (\<lambda>c. if isWordChar c \<or> isSpace c then c else CHR '' '') (toLowerCase text)))"


text \<open>What a character of a token is: a word character, in lower case.\<close>

definition cleanChar :: "char \<Rightarrow> bool" where
  "cleanChar c = (isWordChar c \<and> \<not> isSpace c \<and> lowerChar c = c)"

text \<open>
  \<open>m.set(key, (m.get(key) || 0) + 1)\<close>, the counting step of both \<open>calculateDocFrequencies\<close>
  and the term frequencies of \<open>score\<close>.
\<close>

definition increment :: "(string \<rightharpoonup> nat) \<Rightarrow> string \<Rightarrow> (string \<rightharpoonup> nat)" where
  "increment m key = m(key \<mapsto> (case m key of None \<Rightarrow> 0 | Some n \<Rightarrow> n) + 1)"

text \<open>\<open>m.get(key) || 0\<close>.\<close>

definition getOrZero :: "(string \<rightharpoonup> nat) \<Rightarrow> string \<Rightarrow> nat" where
  "getOrZero m key = (case m key of None \<Rightarrow> 0 | Some n \<Rightarrow> n)"

text \<open>\<open>new Set(tokens)\<close>, iterated in insertion order.\<close>

definition setAdd :: "'a list \<Rightarrow> 'a \<Rightarrow> 'a list" where
  "setAdd s x = (if x \<in> set s then s else s @ [x])"

definition newSet :: "'a list \<Rightarrow> 'a list" where
  "newSet xs = foldl setAdd [] xs"

definition calculateDocFrequencies :: "string list list \<Rightarrow> (string \<rightharpoonup> nat)" where
  "calculateDocFrequencies tds =
     foldl (\<lambda>m tokens. foldl increment m (newSet tokens)) Map.empty tds"

definition calculateAvgDocLength :: "string list list \<Rightarrow> real" where
  "calculateAvgDocLength tds =
     (if length tds = 0 then 1
      else
        let totalLength = foldl (\<lambda>sum tokens. sum + length tokens) 0 tds;
            avg = real totalLength / real (length tds)
        in if avg = 0 then 1 else avg)"

text \<open>The constructor.\<close>

definition BM25_new :: "Document list \<Rightarrow> BM25" where
  "BM25_new docs =
     (let tds = map (\<lambda>doc. tokenize (content doc)) docs
      in \<lparr>documents = docs,
          avgDocLength = calculateAvgDocLength tds,
          docFrequencies = calculateDocFrequencies tds,
          tokenizedDocs = tds\<rparr>)"

definition idf :: "BM25 \<Rightarrow> string \<Rightarrow> real" where
  "idf idx qterm =
     (let N = length (documents idx);
          df = getOrZero (docFrequencies idx) qterm
      in ln ((real N - real df + 0.5) / (real df + 0.5) + 1))"

text \<open>The two local constants of the loop body of \<open>score\<close>.\<close>

definition numerator :: "nat \<Rightarrow> real" where
  "numerator tf = real tf * (k1 + 1)"

definition denominator :: "BM25 \<Rightarrow> nat \<Rightarrow> nat \<Rightarrow> real" where
  "denominator idx tf docLength =
     real tf + k1 * (1 - b + b * (real docLength / avgDocLength idx))"

text \<open>
  \<open>score\<close> reads \<open>tokenizedDocs[docIndex]\<close>; out of range that is \<open>undefined\<close>, whose
  \<open>length\<close> raises a TypeError: the result \<open>None\<close>.
\<close>

definition score_doc :: "BM25 \<Rightarrow> string list \<Rightarrow> nat \<Rightarrow> real option" where
  "score_doc idx queryTokens docIndex =
     (if docIndex < length (tokenizedDocs idx) then
        let docTokens = tokenizedDocs idx ! docIndex;
            docLength = length docTokens;
            termFrequencies = foldl increment Map.empty docTokens
        in Some (foldl
             (\<lambda>sc qterm.
                let tf = getOrZero termFrequencies qterm
                in if tf = 0 then sc
                   else sc + idf idx qterm * (numerator tf / denominator idx tf docLength))
             0 queryTokens)
      else None)"

text \<open>
  \<open>xs.sort(cmp)\<close> for a comparator: the sort is stable, so it is the insertion sort that
  puts an element before the first element it does not follow; \<open>le x y\<close> stands for
  \<open>cmp(x, y) <= 0\<close>.
\<close>

fun insertBy :: "('a \<Rightarrow> 'a \<Rightarrow> bool) \<Rightarrow> 'a \<Rightarrow> 'a list \<Rightarrow> 'a list" where
  "insertBy le x [] = [x]"
| "insertBy le x (y # ys) = (if le x y then x # y # ys else y # insertBy le x ys)"

definition sortBy :: "('a \<Rightarrow> 'a \<Rightarrow> bool) \<Rightarrow> 'a list \<Rightarrow> 'a list" where
  "sortBy le xs = foldr (insertBy le) xs []"

text \<open>
  \<open>xs.slice(0, n)\<close> for an integer \<open>n\<close>: a negative \<open>n\<close> counts from the end of the
  list.
\<close>

definition slice0 :: "'a list \<Rightarrow> int \<Rightarrow> 'a list" where
  "slice0 xs n = (if n < 0 then take (nat (int (length xs) + n)) xs else take (nat n) xs)"

definition scoreDesc :: "SearchResult \<Rightarrow> SearchResult \<Rightarrow> bool" where
  "scoreDesc x y = (score y - score x \<le> 0)"

definition search :: "BM25 \<Rightarrow> string \<Rightarrow> int \<Rightarrow> SearchResult list option" where
  "search idx query maxResults =
     (let queryTokens = tokenize query
      in case those (map (\<lambda>(doc, index).
                map_option (\<lambda>sc. \<lparr>document = doc, score = sc\<rparr>) (score_doc idx queryTokens index))
              (zip (documents idx) [0..<length (documents idx)])) of
           None \<Rightarrow> None
         | Some results \<Rightarrow>
             Some (slice0 (sortBy scoreDesc (filter (\<lambda>r. score r > 0) results)) maxResults))"


subsection \<open>The BM25 formula as the specification words it\<close>

text \<open>
  Document frequency, term frequency and document length are counted on the tokenized
  contents; the average document length is the sum of the tokenized lengths over the
  number of documents, and 1 where that is zero.
\<close>

definition df_spec :: "Document list \<Rightarrow> string \<Rightarrow> nat" where
  "df_spec docs t = length (filter (\<lambda>d. t \<in> set (tokenize (content d))) docs)"

definition tf_spec :: "Document \<Rightarrow> string \<Rightarrow> nat" where
  "tf_spec doc t = count_list (tokenize (content doc)) t"

definition docLen_spec :: "Document \<Rightarrow> nat" where
  "docLen_spec doc = length (tokenize (content doc))"

definition avgDocLen_spec :: "Document list \<Rightarrow> real" where
  "avgDocLen_spec docs =
     (let avg = (\<Sum>d\<leftarrow>docs. real (docLen_spec d)) / real (length docs)
      in if avg = 0 then 1 else avg)"

definition idf_spec :: "Document list \<Rightarrow> string \<Rightarrow> real" where
  "idf_spec docs t =
     ln ((real (length docs) - real (df_spec docs t) + 0.5) / (real (df_spec docs t) + 0.5) + 1)"

definition contribution_spec :: "Document list \<Rightarrow> Document \<Rightarrow> string \<Rightarrow> real" where
  "contribution_spec docs doc t =
     idf_spec docs t * (real (tf_spec doc t) * (1.5 + 1)) /
       (real (tf_spec doc t) + 1.5 * (1 - 0.75 + 0.75 * real (docLen_spec doc) / avgDocLen_spec docs))"

definition bm25_spec :: "Document list \<Rightarrow> string list \<Rightarrow> Document \<Rightarrow> real" where
  "bm25_spec docs queryTokens doc =
     (\<Sum>t\<leftarrow>filter (\<lambda>t. tf_spec doc t \<noteq> 0) queryTokens. contribution_spec docs doc t)"


text \<open>Two small documents for the examples.\<close>

definition docA :: Document where
  "docA = \<lparr>doc_id = ''1'', content = ''hex font hex'', data = [(''type'', ''color'')]\<rparr>"

definition docB :: Document where
  "docB = \<lparr>doc_id = ''2'', content = ''font serif'', data = [(''type'', ''typography'')]\<rparr>"

section \<open>Keyword classifiers\<close>

datatype KeywordEntry = KeywordEntry (keyword: string) (weight: real)

datatype DomainMatch = DomainMatch (domain: string) (confidence: real)

definition domainKeywordsWeighted :: "(string \<times> KeywordEntry list) list" where
  "domainKeywordsWeighted =
    [
     (''color'',
       [KeywordEntry ''color palette'' 1,
        KeywordEntry ''color scheme'' 1,
        KeywordEntry ''hex code'' 0.95,
        KeywordEntry ''palette'' 0.9,
        KeywordEntry ''color'' 0.7,
        KeywordEntry ''hex'' 0.6,
        KeywordEntry ''rgb'' 0.5,
        KeywordEntry ''#'' 0.3]),
     (''chart'',
       [KeywordEntry ''chart type'' 1,
        KeywordEntry ''data visualization'' 1,
        KeywordEntry ''visualization'' 0.9,
        KeywordEntry ''chart'' 0.85,
        KeywordEntry ''graph'' 0.8,
        KeywordEntry ''pie chart'' 0.95,
        KeywordEntry ''bar chart'' 0.95,
        KeywordEntry ''scatter plot'' 0.95,
        KeywordEntry ''heatmap'' 0.9,
        KeywordEntry ''funnel'' 0.7,
        KeywordEntry ''trend'' 0.5,
        KeywordEntry ''bar'' 0.4,
        KeywordEntry ''pie'' 0.4,
        KeywordEntry ''scatter'' 0.5]),
     (''landing'',
       [KeywordEntry ''landing page'' 1,
        KeywordEntry ''landing pattern'' 1,
        KeywordEntry ''hero section'' 0.95,
        KeywordEntry ''cta button'' 0.9,
        KeywordEntry ''conversion'' 0.8,
        KeywordEntry ''landing'' 0.75,
        KeywordEntry ''hero'' 0.7,
        KeywordEntry ''testimonial'' 0.7,
        KeywordEntry ''pricing section'' 0.8,
        KeywordEntry ''cta'' 0.6,
        KeywordEntry ''section'' 0.3]),
     (''product'',
       [KeywordEntry ''product type'' 1,
        KeywordEntry ''saas design'' 1,
        KeywordEntry ''ecommerce design'' 1,
        KeywordEntry ''fintech'' 0.9,
        KeywordEntry ''healthcare'' 0.85,
        KeywordEntry ''saas'' 0.8,
        KeywordEntry ''ecommerce'' 0.8,
        KeywordEntry ''e-commerce'' 0.8,
        KeywordEntry ''gaming'' 0.7,
        KeywordEntry ''portfolio'' 0.6,
        KeywordEntry ''crypto'' 0.7,
        KeywordEntry ''dashboard'' 0.6]),
     (''prompt'',
       [KeywordEntry ''ai prompt'' 1,
        KeywordEntry ''prompt template'' 1,
        KeywordEntry ''css snippet'' 0.9,
        KeywordEntry ''implementation checklist'' 0.9,
        KeywordEntry ''design system variable'' 0.85,
        KeywordEntry ''prompt'' 0.7,
        KeywordEntry ''checklist'' 0.5,
        KeywordEntry ''variable'' 0.3]),
     (''style'',
       [KeywordEntry ''ui style'' 1,
        KeywordEntry ''design style'' 1,
        KeywordEntry ''glassmorphism'' 0.95,
        KeywordEntry ''neumorphism'' 0.95,
        KeywordEntry ''brutalism'' 0.95,
        KeywordEntry ''minimalism'' 0.9,
        KeywordEntry ''dark mode'' 0.85,
        KeywordEntry ''flat design'' 0.9,
        KeywordEntry ''aurora'' 0.7,
        KeywordEntry ''style'' 0.5,
        KeywordEntry ''design'' 0.3,
        KeywordEntry ''ui'' 0.3]),
     (''ux'',
       [KeywordEntry ''ux guideline'' 1,
        KeywordEntry ''ux best practice'' 1,
        KeywordEntry ''usability'' 0.9,
        KeywordEntry ''accessibility'' 0.9,
        KeywordEntry ''wcag'' 0.95,
        KeywordEntry ''a11y'' 0.9,
        KeywordEntry ''ux'' 0.75,
        KeywordEntry ''user experience'' 0.85,
        KeywordEntry ''touch target'' 0.8,
        KeywordEntry ''scroll'' 0.4,
        KeywordEntry ''animation'' 0.4,
        KeywordEntry ''keyboard'' 0.5,
        KeywordEntry ''navigation'' 0.4,
        KeywordEntry ''mobile'' 0.3]),
     (''typography'',
       [KeywordEntry ''font pairing'' 1,
        KeywordEntry ''typography'' 0.9,
        KeywordEntry ''google fonts'' 0.85,
        KeywordEntry ''font family'' 0.85,
        KeywordEntry ''heading font'' 0.9,
        KeywordEntry ''body font'' 0.9,
        KeywordEntry ''font'' 0.6,
        KeywordEntry ''serif'' 0.5,
        KeywordEntry ''sans-serif'' 0.5,
        KeywordEntry ''sans'' 0.4,
        KeywordEntry ''heading'' 0.3]),
     (''icons'',
       [KeywordEntry ''lucide icon'' 1,
        KeywordEntry ''icon search'' 1,
        KeywordEntry ''lucide'' 0.95,
        KeywordEntry ''heroicons'' 0.9,
        KeywordEntry ''svg icon'' 0.9,
        KeywordEntry ''icons'' 0.8,
        KeywordEntry ''icon'' 0.7,
        KeywordEntry ''symbol'' 0.4,
        KeywordEntry ''glyph'' 0.5,
        KeywordEntry ''pictogram'' 0.6]),
     (''platform'',
       [KeywordEntry ''ios guideline'' 1,
        KeywordEntry ''ios hig'' 1,
        KeywordEntry ''human interface'' 0.95,
        KeywordEntry ''apple design'' 0.95,
        KeywordEntry ''ios native'' 0.9,
        KeywordEntry ''ios pattern'' 0.9,
        KeywordEntry ''cupertino'' 0.85,
        KeywordEntry ''uikit'' 0.85,
        KeywordEntry ''ios color'' 0.8,
        KeywordEntry ''ios typography'' 0.8,
        KeywordEntry ''ios navigation'' 0.8,
        KeywordEntry ''safe area'' 0.75,
        KeywordEntry ''notch'' 0.7,
        KeywordEntry ''home indicator'' 0.75,
        KeywordEntry ''dynamic island'' 0.8,
        KeywordEntry ''android guideline'' 1,
        KeywordEntry ''material design'' 1,
        KeywordEntry ''material 3'' 1,
        KeywordEntry ''m3'' 0.95,
        KeywordEntry ''material you'' 0.95,
        KeywordEntry ''google design'' 0.9,
        KeywordEntry ''android native'' 0.9,
        KeywordEntry ''android pattern'' 0.9,
        KeywordEntry ''jetpack compose'' 0.95,
        KeywordEntry ''compose'' 0.7,
        KeywordEntry ''kotlin ui'' 0.85,
        KeywordEntry ''android hig'' 0.9,
        KeywordEntry ''android color'' 0.8,
        KeywordEntry ''android typography'' 0.8,
        KeywordEntry ''android navigation'' 0.8,
        KeywordEntry ''dynamic color'' 0.85,
        KeywordEntry ''tonal elevation'' 0.8,
        KeywordEntry ''material'' 0.6,
        KeywordEntry ''android'' 0.6])]"

definition stackKeywordsWeighted :: "(string \<times> KeywordEntry list) list" where
  "stackKeywordsWeighted =
    [
     (''react'',
       [KeywordEntry ''react hooks'' 1,
        KeywordEntry ''usestate'' 0.95,
        KeywordEntry ''useeffect'' 0.95,
        KeywordEntry ''usememo'' 0.95,
        KeywordEntry ''usecallback'' 0.95,
        KeywordEntry ''useref'' 0.95,
        KeywordEntry ''usecontext'' 0.95,
        KeywordEntry ''jsx'' 0.85,
        KeywordEntry ''react component'' 0.9,
        KeywordEntry ''react'' 0.7]),
     (''nextjs'',
       [KeywordEntry ''next.js'' 1,
        KeywordEntry ''nextjs'' 1,
        KeywordEntry ''app router'' 0.95,
        KeywordEntry ''server components'' 0.95,
        KeywordEntry ''server actions'' 0.95,
        KeywordEntry ''getserversideprops'' 0.95,
        KeywordEntry ''getstaticprops'' 0.95,
        KeywordEntry ''pages router'' 0.9,
        KeywordEntry ''next/image'' 0.9,
        KeywordEntry ''next/link'' 0.9]),
     (''vue'',
       [KeywordEntry ''vue 3'' 1,
        KeywordEntry ''vuejs'' 1,
        KeywordEntry ''vue.js'' 1,
        KeywordEntry ''composition api'' 0.95,
        KeywordEntry ''options api'' 0.9,
        KeywordEntry ''pinia'' 0.95,
        KeywordEntry ''vuex'' 0.9,
        KeywordEntry ''ref('' 0.85,
        KeywordEntry ''reactive('' 0.85,
        KeywordEntry ''vue'' 0.6]),
     (''svelte'',
       [KeywordEntry ''sveltekit'' 1,
        KeywordEntry ''svelte 5'' 1,
        KeywordEntry ''svelte store'' 0.95,
        KeywordEntry ''$:'' 0.7,
        KeywordEntry ''svelte'' 0.8]),
     (''flutter'',
       [KeywordEntry ''flutter widget'' 1,
        KeywordEntry ''flutter'' 0.9,
        KeywordEntry ''dart'' 0.7,
        KeywordEntry ''statefulwidget'' 0.95,
        KeywordEntry ''statelesswidget'' 0.95,
        KeywordEntry ''buildcontext'' 0.9,
        KeywordEntry ''widget'' 0.4]),
     (''swiftui'',
       [KeywordEntry ''swiftui'' 1,
        KeywordEntry ''swift ui'' 1,
        KeywordEntry ''ios development'' 0.8,
        KeywordEntry ''@state'' 0.9,
        KeywordEntry ''@binding'' 0.9,
        KeywordEntry ''@observedobject'' 0.9,
        KeywordEntry ''ios'' 0.5]),
     (''react-native'',
       [KeywordEntry ''react native'' 1,
        KeywordEntry ''react-native'' 1,
        KeywordEntry ''expo'' 0.85,
        KeywordEntry ''expo router'' 0.95,
        KeywordEntry ''native module'' 0.8]),
     (''html-tailwind'',
       [KeywordEntry ''tailwind css'' 1,
        KeywordEntry ''tailwindcss'' 1,
        KeywordEntry ''tailwind'' 0.85,
        KeywordEntry ''utility css'' 0.9,
        KeywordEntry ''utility class'' 0.8,
        KeywordEntry ''utility-first'' 0.9]),
     (''shadcn'',
       [KeywordEntry ''shadcn/ui'' 1,
        KeywordEntry ''shadcn'' 0.95,
        KeywordEntry ''radix ui'' 0.85,
        KeywordEntry ''radix'' 0.7]),
     (''nuxtjs'',
       [KeywordEntry ''nuxt 3'' 1,
        KeywordEntry ''nuxtjs'' 1,
        KeywordEntry ''nuxt.js'' 1,
        KeywordEntry ''nuxt'' 0.85,
        KeywordEntry ''usefetch'' 0.9,
        KeywordEntry ''useasyncdata'' 0.9]),
     (''nuxt-ui'',
       [KeywordEntry ''nuxt ui'' 1,
        KeywordEntry ''@nuxt/ui'' 1])]"

subsection \<open>Keyword matching\<close>

text \<open>
  The pattern of \<open>matchesKeyword\<close> is \<open>\b\<close>, the keyword, \<open>\b\<close>, with the flag \<open>i\<close>.
  \<open>escapeRegex\<close> puts a backslash before each of the characters \<open>.*+?^${}()|[]\\<close>, the
  only characters that are not literals in a pattern, so the keyword matches itself,
  character by character, up to case.

  With the flag \<open>i\<close> two characters match when their canonical forms are equal; the
  canonical form is the upper-case character where that is one code unit. Below 256 the
  lower-case letters \<open>a\<close> to \<open>z\<close> and 224 to 254 (without the division sign 247) move down
  by 32; the upper-case forms of 181 and 255 lie above 255 and are the form of no other
  character below 256, so these two stand for themselves here.
\<close>

definition canonicalize :: "char \<Rightarrow> char" where
  "canonicalize c =
     (if (97 \<le> code c \<and> code c \<le> 122) \<or> (224 \<le> code c \<and> code c \<le> 254 \<and> code c \<noteq> 247)
      then char_of (code c - 32) else c)"

lemma canonicalize_Char [code]:
  "canonicalize (Char b0 b1 b2 b3 b4 b5 b6 b7) =
     (if b6 \<and> b5 \<and>
         (if b7 then \<not> (b0 \<and> b1 \<and> b2 \<and> b3 \<and> b4) \<and> \<not> (b0 \<and> b1 \<and> b2 \<and> \<not> b3 \<and> b4)
          else letterBits b0 b1 b2 b3 b4)
      then Char b0 b1 b2 b3 b4 False b6 b7
      else Char b0 b1 b2 b3 b4 b5 b6 b7)"
  unfolding canonicalize_def code_Char letterBits_def
  by (cases b0; cases b1; cases b2; cases b3; cases b4; cases b5; cases b6; cases b7;
      simp add: char_of_def bit_Suc_0_iff bit_0)

text \<open>The keyword matches a prefix of the text, up to case.\<close>

fun matchesHere :: "string \<Rightarrow> string \<Rightarrow> bool" where
  "matchesHere [] s = True"
| "matchesHere (k # ks) [] = False"
| "matchesHere (k # ks) (c # cs) =
     (if canonicalize k = canonicalize c then matchesHere ks cs else False)"

text \<open>
  \<open>\b\<close> holds between two neighbours when exactly one of them is a word character; the
  start and the end of the text (\<open>None\<close>) count as no word character.
\<close>

definition isWord :: "char option \<Rightarrow> bool" where
  "isWord c = (case c of None \<Rightarrow> False | Some x \<Rightarrow> isWordChar x)"

definition wordBoundary :: "char option \<Rightarrow> char option \<Rightarrow> bool" where
  "wordBoundary prev nxt = (isWord prev \<noteq> isWord nxt)"

definition firstChar :: "string \<Rightarrow> char option" where
  "firstChar s = (case s of [] \<Rightarrow> None | c # _ \<Rightarrow> Some c)"

definition lastChar :: "char option \<Rightarrow> string \<Rightarrow> char option" where
  "lastChar prev s = (if s = [] then prev else Some (last s))"

text \<open>
  The pattern matches at the start of \<open>s\<close>, where \<open>prev\<close> is the character in front of
  \<open>s\<close>.
\<close>

definition matchAt :: "char option \<Rightarrow> string \<Rightarrow> string \<Rightarrow> bool" where
  "matchAt prev k s =
     (if wordBoundary prev (firstChar s) then
        if matchesHere k s then
          wordBoundary (lastChar prev (take (length k) s)) (firstChar (drop (length k) s))
        else False
      else False)"

text \<open>\<open>regex.test\<close>: the pattern matches at some position of the text.\<close>

fun regexTest :: "char option \<Rightarrow> string \<Rightarrow> string \<Rightarrow> bool" where
  "regexTest prev k [] = matchAt prev k []"
| "regexTest prev k (c # cs) =
     (if matchAt prev k (c # cs) then True else regexTest (Some c) k cs)"

definition matchesKeyword :: "string \<Rightarrow> string \<Rightarrow> bool" where
  "matchesKeyword query kw =
     (if CHR '' '' \<in> set kw then includes_str query kw
      else regexTest None kw query)"

subsection \<open>Domain and stack detection\<close>

text \<open>
  The inner loop of \<open>detectDomains\<close>, \<open>detectStacks\<close> and \<open>detectPlatformIntent\<close>: the
  largest weight (starting from 0) and the number of the matched keywords.
\<close>

definition scanKeywords :: "string \<Rightarrow> KeywordEntry list \<Rightarrow> real \<times> nat" where
  "scanKeywords lowerQuery keywords =
     foldl (\<lambda>(maxScore, matchCount) e.
              if matchesKeyword lowerQuery (keyword e)
              then (max maxScore (weight e), matchCount + 1)
              else (maxScore, matchCount))
       (0, 0) keywords"

text \<open>
  \<open>map.set(key, v)\<close> on a \<open>Map\<close>, which iterates in insertion order: a key that is
  present keeps its place.
\<close>

fun mapSet :: "('k \<times> 'v) list \<Rightarrow> 'k \<Rightarrow> 'v \<Rightarrow> ('k \<times> 'v) list" where
  "mapSet [] k v = [(k, v)]"
| "mapSet ((k', v') # m) k v = (if k' = k then (k, v) # m else (k', v') # mapSet m k v)"

text \<open>
  The outer loop of \<open>detectDomains\<close> and \<open>detectStacks\<close>, which differ in the table and
  in the final threshold only.
\<close>

definition categoryScores :: "(string \<times> KeywordEntry list) list \<Rightarrow> string \<Rightarrow> (string \<times> real) list" where
  "categoryScores table lowerQuery =
     foldl (\<lambda>scores (category, keywords).
              let (maxScore, matchCount) = scanKeywords lowerQuery keywords
              in if matchCount > 0 then
                   let multiMatchBoost = min 0.1 (real (matchCount - 1) * 0.03);
                       finalScore = min 1.0 (maxScore + multiMatchBoost)
                   in mapSet scores category finalScore
                 else scores)
       [] table"

definition confidenceDesc :: "DomainMatch \<Rightarrow> DomainMatch \<Rightarrow> bool" where
  "confidenceDesc x y = (confidence y - confidence x \<le> 0)"

definition detectDomains :: "string \<Rightarrow> DomainMatch list" where
  "detectDomains query =
     (let lowerQuery = toLowerCase query;
          domainScores = categoryScores domainKeywordsWeighted lowerQuery;
          results = map (\<lambda>(d, c). DomainMatch d c) domainScores
      in filter (\<lambda>r. confidence r \<ge> 0.2) (sortBy confidenceDesc results))"

definition detectStacks :: "string \<Rightarrow> DomainMatch list" where
  "detectStacks query =
     (let lowerQuery = toLowerCase query;
          stackScores = categoryScores stackKeywordsWeighted lowerQuery;
          results = map (\<lambda>(d, c). DomainMatch d c) stackScores
      in filter (\<lambda>r. confidence r \<ge> 0.3) (sortBy confidenceDesc results))"

subsection \<open>Platform intent\<close>

record PlatformIntentResult =
  platform :: string
  platform_confidence :: real
  matched_keywords :: "string list"
  framework :: "string option"

definition PLATFORM_KEYWORDS :: "(string \<times> KeywordEntry list) list" where
  "PLATFORM_KEYWORDS =
    [
     (''web'',
       [KeywordEntry ''viewport'' 0.7,
        KeywordEntry ''responsive'' 0.7,
        KeywordEntry ''navbar'' 0.7,
        KeywordEntry ''header'' 0.6,
        KeywordEntry ''footer'' 0.6,
        KeywordEntry ''sidebar'' 0.7,
        KeywordEntry ''hero section'' 0.8,
        KeywordEntry ''mega menu'' 0.8,
        KeywordEntry ''breadcrumbs'' 0.7,
        KeywordEntry ''modal'' 0.5,
        KeywordEntry ''popup'' 0.6,
        KeywordEntry ''carousel'' 0.6,
        KeywordEntry ''hover states'' 0.8,
        KeywordEntry ''above the fold'' 0.8,
        KeywordEntry ''page'' 0.4,
        KeywordEntry ''sticky header'' 0.8,
        KeywordEntry ''multi-column'' 0.7,
        KeywordEntry ''css grid'' 0.7,
        KeywordEntry ''media queries'' 0.8,
        KeywordEntry ''hamburger menu'' 0.6,
        KeywordEntry ''seo'' 0.8,
        KeywordEntry ''lighthouse'' 0.9,
        KeywordEntry ''web vitals'' 0.9,
        KeywordEntry ''pwa'' 0.8,
        KeywordEntry ''progressive web app'' 0.9,
        KeywordEntry ''landing page'' 0.7,
        KeywordEntry ''website'' 0.6,
        KeywordEntry ''web app'' 0.7,
        KeywordEntry ''browser'' 0.6]),
     (''mobile-ios'',
       [KeywordEntry ''tab bar'' 0.8,
        KeywordEntry ''navigation bar'' 0.6,
        KeywordEntry ''bottom sheet'' 0.7,
        KeywordEntry ''segmented control'' 0.9,
        KeywordEntry ''sf symbols'' 1,
        KeywordEntry ''swipe gesture'' 0.6,
        KeywordEntry ''edge swipe'' 0.8,
        KeywordEntry ''haptic feedback'' 0.7,
        KeywordEntry ''safe area'' 0.9,
        KeywordEntry ''navigationstack'' 1,
        KeywordEntry ''navigationlink'' 1,
        KeywordEntry ''hig'' 0.9,
        KeywordEntry ''human interface guidelines'' 1,
        KeywordEntry ''pull-to-refresh'' 0.6,
        KeywordEntry ''long-press'' 0.5,
        KeywordEntry ''touch target'' 0.5,
        KeywordEntry ''hit area'' 0.6,
        KeywordEntry ''dynamic type'' 0.9,
        KeywordEntry ''ios app'' 1,
        KeywordEntry ''iphone'' 0.9,
        KeywordEntry ''ipad'' 0.9,
        KeywordEntry ''uikit'' 1,
        KeywordEntry ''swiftui'' 1,
        KeywordEntry ''ios'' 1,
        KeywordEntry ''cupertino'' 1]),
     (''mobile-android'',
       [KeywordEntry ''bottom navigation'' 0.8,
        KeywordEntry ''navigation drawer'' 0.9,
        KeywordEntry ''fab'' 0.8,
        KeywordEntry ''floating action button'' 0.9,
        KeywordEntry ''top app bar'' 0.9,
        KeywordEntry ''snackbar'' 0.9,
        KeywordEntry ''chips'' 0.6,
        KeywordEntry ''material 3'' 1,
        KeywordEntry ''material you'' 1,
        KeywordEntry ''adaptive layouts'' 0.8,
        KeywordEntry ''gesture navigation'' 0.7,
        KeywordEntry ''up arrow'' 0.7,
        KeywordEntry ''foldable'' 0.9,
        KeywordEntry ''multi-window'' 0.8,
        KeywordEntry ''dynamic color'' 0.9,
        KeywordEntry ''surface'' 0.5,
        KeywordEntry ''scaffold'' 0.8,
        KeywordEntry ''android app'' 0.9,
        KeywordEntry ''jetpack compose'' 1,
        KeywordEntry ''material design'' 0.8,
        KeywordEntry ''android'' 0.7,
        KeywordEntry ''kotlin'' 0.8]),
     (''cross-platform'',
       [KeywordEntry ''react native'' 1,
        KeywordEntry ''flutter'' 1,
        KeywordEntry ''expo'' 0.9,
        KeywordEntry ''kotlin multiplatform'' 1,
        KeywordEntry ''cross-platform'' 0.9,
        KeywordEntry ''shared codebase'' 0.9,
        KeywordEntry ''hot reload'' 0.8,
        KeywordEntry ''platform-specific'' 0.7,
        KeywordEntry ''widget'' 0.5,
        KeywordEntry ''component tree'' 0.6,
        KeywordEntry ''declarative'' 0.5,
        KeywordEntry ''state management'' 0.5,
        KeywordEntry ''navigator'' 0.6,
        KeywordEntry ''stack navigator'' 0.9,
        KeywordEntry ''tab navigator'' 0.9,
        KeywordEntry ''drawer navigator'' 0.9]),
     (''mobile-generic'',
       [KeywordEntry ''mobile'' 0.6,
        KeywordEntry ''app'' 0.4,
        KeywordEntry ''native'' 0.6,
        KeywordEntry ''touch'' 0.5,
        KeywordEntry ''gesture'' 0.5,
        KeywordEntry ''swipe'' 0.5,
        KeywordEntry ''bottom tabs'' 0.7,
        KeywordEntry ''screen'' 0.4,
        KeywordEntry ''view'' 0.3,
        KeywordEntry ''modal presentation'' 0.6,
        KeywordEntry ''push navigation'' 0.7,
        KeywordEntry ''pop navigation'' 0.7,
        KeywordEntry ''mobile ui'' 0.8,
        KeywordEntry ''mobile design'' 0.8])]"

definition FRAMEWORK_KEYWORDS :: "(string \<times> (string \<times> string) list) list" where
  "FRAMEWORK_KEYWORDS =
    [
     (''mobile-ios'',
       [(''swiftui'', ''swiftui''),
        (''uikit'', ''uikit'')]),
     (''mobile-android'',
       [(''jetpack compose'', ''jetpack-compose''),
        (''kotlin'', ''jetpack-compose''),
        (''material 3'', ''jetpack-compose'')]),
     (''cross-platform'',
       [(''flutter'', ''flutter''),
        (''react native'', ''react-native''),
        (''react-native'', ''react-native''),
        (''expo'', ''react-native''),
        (''kotlin multiplatform'', ''kotlin-multiplatform'')])]"

text \<open>\<open>Math.round\<close>: the nearest integer, a half rounding up.\<close>

definition jsRound :: "real \<Rightarrow> int" where
  "jsRound x = \<lfloor>x + 1 / 2\<rfloor>"

text \<open>The matched keywords of a platform, in table order.\<close>

definition matchedKeywords :: "string \<Rightarrow> KeywordEntry list \<Rightarrow> string list" where
  "matchedKeywords lowerQuery keywords =
     map keyword (filter (\<lambda>e. matchesKeyword lowerQuery (keyword e)) keywords)"

text \<open>
  The scoring loop: \<open>platformScores\<close> starts with the score 0 and no keyword for every
  platform, and a platform with a matched keyword gets its score and its keywords.
\<close>

definition platformScores :: "string \<Rightarrow> (string \<times> real \<times> string list) list" where
  "platformScores lowerQuery =
     foldl (\<lambda>scores (p, keywords).
              let matched = matchedKeywords lowerQuery keywords;
                  maxWeight = fst (scanKeywords lowerQuery keywords)
              in if length matched > 0 then
                   let multiMatchBoost = min 0.15 (real (length matched - 1) * 0.05);
                       finalScore = min 1.0 (maxWeight + multiMatchBoost)
                   in mapSet scores p (finalScore, matched)
                 else scores)
       (map (\<lambda>(p, keywords). (p, (0, []))) PLATFORM_KEYWORDS) PLATFORM_KEYWORDS"

text \<open>The search for the best platform: a later platform wins only with a larger score.\<close>

definition bestPlatform :: "(string \<times> real \<times> string list) list \<Rightarrow> string \<times> real \<times> string list" where
  "bestPlatform scores =
     foldl (\<lambda>(bestP, bestScore, bestKeywords) (p, sc, kws).
              if sc > bestScore then (p, sc, kws) else (bestP, bestScore, bestKeywords))
       (''web'', 0, []) scores"

definition detectFramework :: "string \<Rightarrow> string \<Rightarrow> string option" where
  "detectFramework lowerQuery p =
     (case map_of FRAMEWORK_KEYWORDS p of
        None \<Rightarrow> None
      | Some frameworkKeywords \<Rightarrow>
          map_option snd (find (\<lambda>(kw, fw). matchesKeyword lowerQuery kw) frameworkKeywords))"

definition detectPlatformIntent :: "string \<Rightarrow> PlatformIntentResult" where
  "detectPlatformIntent query =
     (let lowerQuery = toLowerCase query;
          (bestP, bestScore, bestKeywords) = bestPlatform (platformScores lowerQuery);
          fw = detectFramework lowerQuery bestP
      in if bestScore = 0 then
           \<lparr>platform = ''web'', platform_confidence = 0.3, matched_keywords = [], framework = None\<rparr>
         else
           \<lparr>platform = bestP, platform_confidence = real_of_int (jsRound (bestScore * 100)) / 100,
            matched_keywords = bestKeywords, framework = fw\<rparr>)"

subsection \<open>The category score as the specification words it\<close>

text \<open>
  The matched keywords of a category, and its score: the largest weight among the matched
  keywords, plus the boost \<open>min(0.1, (matchCount - 1) * 0.03)\<close> when two or more keywords
  matched, capped at 1.
\<close>

definition matchedEntries :: "string \<Rightarrow> KeywordEntry list \<Rightarrow> KeywordEntry list" where
  "matchedEntries query keywords =
     filter (\<lambda>e. matchesKeyword (toLowerCase query) (keyword e)) keywords"

definition categoryScore_spec :: "string \<Rightarrow> KeywordEntry list \<Rightarrow> real" where
  "categoryScore_spec query keywords =
     (let m = matchedEntries query keywords;
          raw = Max (weight ` set m);
          boost = (if length m \<ge> 2 then min 0.1 (real (length m - 1) * 0.03) else 0)
      in min 1 (raw + boost))"

subsection \<open>The loops in closed form\<close>

text \<open>The score that the loops of \<open>detectDomains\<close> and \<open>detectStacks\<close> give a category.\<close>

definition loopScore :: "string \<Rightarrow> KeywordEntry list \<Rightarrow> real" where
  "loopScore q kws =
     min 1 (fst (scanKeywords q kws) + min 0.1 (real (snd (scanKeywords q kws) - 1) * 0.03))"

text \<open>The list that both detectors sort and filter.\<close>

definition matches_of :: "(string \<times> KeywordEntry list) list \<Rightarrow> string \<Rightarrow> DomainMatch list" where
  "matches_of table q =
     map (\<lambda>(c, kws). DomainMatch c (loopScore (toLowerCase q) kws))
       (filter (\<lambda>(c, kws). snd (scanKeywords (toLowerCase q) kws) > 0) table)"


section \<open>Input validation and query expansion\<close>

text \<open>
  The handlers take \<open>unknown\<close> arguments; the tool layer passes a string for the query and
  a number for the result count, each of which may be absent (\<open>undefined\<close>) or \<open>null\<close>. A
  number is a real number, \<open>NaN\<close> or an infinity.
\<close>

datatype 'a param = Undefined | Null | Given 'a

datatype jsNumber = Finite real | NaN | PosInfinity | NegInfinity

record ValidationResult =
  v_valid :: bool
  v_query :: string
  v_originalQuery :: string
  v_maxResults :: int
  v_error :: "string option"

definition DOMAIN_MAPPINGS :: "(string \<times> string) list" where
  "DOMAIN_MAPPINGS =
    [(''crypto'',
      ''dashboard numbers metrics chart dark mode''),
     (''fintech'',
      ''pricing table trust security calculator data''),
     (''modern'',
      ''clean minimal bento gradient''),
     (''ecommerce'',
      ''gallery image search filter pricing plans reviews hero cart''),
     (''healthcare'',
      ''dashboard metrics table trust profile form clean medical''),
     (''education'',
      ''dashboard profile search gallery clean learning course''),
     (''realestate'',
      ''map location gallery image search filter property listing''),
     (''travel'',
      ''map location gallery image search filter reviews destination booking''),
     (''saas'',
      ''dashboard chart metrics pricing plans table modern analytics toggle dark mode theme switch scroll navigation footer utility back-to-top accessibility''),
     (''gaming'',
      ''dark mode social profile feed gallery modern stream immersive''),
     (''social'',
      ''feed profile social gallery search modern community chat''),
     (''news'',
      ''feed search bento clean modern image article trending''),
     (''portfolio'',
      ''gallery image profile clean modern bento showcase creative''),
     (''landing'',
      ''hero cta testimonials pricing features section toggle navigation header footer utility scroll dark-mode light-mode theme accessibility back-to-top''),
     (''dashboard'',
      ''analytics chart metrics kpi toggle dark mode theme panel sidebar navigation utility''),
     (''page'',
      ''landing hero section toggle dark mode navigation footer header utility accessibility''),
     (''security'',
      ''authentication password validation privacy alerts trust shield''),
     (''trust'',
      ''reviews testimonials badges secure verified''),
     (''analytics'',
      ''dashboard chart metrics table data visualization report''),
     (''onboarding'',
      ''form profile clean modern step guide welcome''),
     (''conversion'',
      ''pricing plans reviews trust hero cta signup''),
     (''hero'',
      ''hero-centric headline visual banner above-fold primary''),
     (''pricing'',
      ''pricing-focused plans tiers comparison subscription''),
     (''testimonials'',
      ''social-proof reviews trust badges authority''),
     (''features'',
      ''feature-grid benefits highlights showcase''),
     (''cta'',
      ''call-to-action button conversion signup''),
     (''website'',
      ''landing page hero cta testimonials features section''),
     (''web'',
      ''landing page hero cta section''),
     (''site'',
      ''landing page hero cta section''),
     (''homepage'',
      ''landing hero features cta testimonials pricing''),
     (''admin'',
      ''dashboard panel analytics metrics sidebar''),
     (''panel'',
      ''dashboard admin analytics metrics sidebar''),
     (''metrics'',
      ''dashboard analytics chart kpi data''),
     (''kpi'',
      ''dashboard metrics analytics chart data''),
     (''ios'',
      ''hig human interface guidelines iphone ipad sf symbols cupertino design system apple guidelines swiftui like mobile native''),
     (''platform'',
      ''ios hig human interface iphone ipad sf symbols cupertino apple design swiftui style android material flutter native mobile''),
     (''iphone'',
      ''ios mobile hig human interface guidelines apple native cupertino sf symbols''),
     (''ipad'',
      ''ios tablet hig human interface guidelines apple native cupertino sf symbols''),
     (''apple'',
      ''ios hig human interface guidelines iphone ipad sf symbols cupertino design system swiftui native''),
     (''cupertino'',
      ''ios apple hig human interface guidelines sf symbols iphone ipad flutter native''),
     (''hig'',
      ''ios apple human interface guidelines cupertino sf symbols design system native mobile''),
     (''ios style'',
      ''cupertino hig human interface sf symbols apple design flutter react-native without swift''),
     (''swiftui style'',
      ''ios cupertino hig sf symbols apple design flutter react-native''),
     (''cupertino style'',
      ''ios hig flutter react-native apple design sf symbols''),
     (''ios without swift'',
      ''cupertino flutter react-native ios style hig sf symbols''),
     (''ios flutter'',
      ''cupertino hig sf symbols apple design ios style cross-platform''),
     (''ios react native'',
      ''cupertino hig sf symbols apple design ios style cross-platform''),
     (''android'',
      ''material material design m3 material you google design jetpack compose kotlin ui dynamic color tonal elevation''),
     (''material'',
      ''android material design m3 material 3 material you google design dynamic color tonal elevation''),
     (''material 3'',
      ''android material design m3 material you google design jetpack compose dynamic color''),
     (''material design'',
      ''android m3 material 3 material you google design dynamic color tonal elevation''),
     (''m3'',
      ''android material material 3 material design material you google design dynamic color''),
     (''jetpack compose'',
      ''android material m3 kotlin ui compose google design native''),
     (''compose'',
      ''android jetpack compose kotlin ui material m3 google design native''),
     (''kotlin ui'',
      ''android jetpack compose compose material m3 google design native''),
     (''google design'',
      ''android material m3 material design material you dynamic color tonal elevation''),
     (''android hig'',
      ''material material design m3 material you google design jetpack compose''),
     (''material you'',
      ''android material m3 material design dynamic color personalization google design''),
     (''dynamic color'',
      ''android material you m3 material 3 personalization theming google design''),
     (''tonal elevation'',
      ''android material m3 surface elevation depth google design''),
     (''android style'',
      ''material m3 material design jetpack compose flutter react-native without kotlin''),
     (''material style'',
      ''android m3 material design flutter react-native google design''),
     (''android flutter'',
      ''material m3 material design android style cross-platform flutter''),
     (''android react native'',
      ''material m3 material design android style cross-platform react-native'')]"

text \<open>The comparator \<open>(a, b) => b.length - a.length\<close>.\<close>

definition lengthDesc :: "string \<Rightarrow> string \<Rightarrow> bool" where
  "lengthDesc x y = (int (length y) - int (length x) \<le> 0)"

text \<open>
  \<open>expandQuery\<close>: for every key of the mapping, longest first, that the lower-case query
  contains, a space and the value of the key are appended to the query.
\<close>

definition expandQuery :: "string \<Rightarrow> string" where
  "expandQuery query =
     (let lowerQuery = toLowerCase query;
          sortedKeys = sortBy lengthDesc (map fst DOMAIN_MAPPINGS)
      in foldl (\<lambda>expanded key.
                  if includes_str lowerQuery key then
                    (case map_of DOMAIN_MAPPINGS key of
                       Some v \<Rightarrow> expanded @ '' '' @ v
                     | None \<Rightarrow> expanded @ '' undefined'')
                  else expanded)
           query sortedKeys)"

text \<open>\<open>Number.isInteger\<close>.\<close>

definition isInteger :: "jsNumber \<Rightarrow> bool" where
  "isInteger n = (case n of Finite x \<Rightarrow> real_of_int \<lfloor>x\<rfloor> = x | _ \<Rightarrow> False)"

text \<open>\<open>n < c\<close> and \<open>n > c\<close> for a number \<open>n\<close> and a finite constant \<open>c\<close>.\<close>

definition numLess :: "jsNumber \<Rightarrow> real \<Rightarrow> bool" where
  "numLess n c = (case n of Finite x \<Rightarrow> x < c | NegInfinity \<Rightarrow> True | _ \<Rightarrow> False)"

definition numGreater :: "jsNumber \<Rightarrow> real \<Rightarrow> bool" where
  "numGreater n c = (case n of Finite x \<Rightarrow> x > c | PosInfinity \<Rightarrow> True | _ \<Rightarrow> False)"

text \<open>The integer that a number which passed \<open>Number.isInteger\<close> is.\<close>

definition toInt :: "jsNumber \<Rightarrow> int" where
  "toInt n = (case n of Finite x \<Rightarrow> \<lfloor>x\<rfloor> | _ \<Rightarrow> 0)"

definition invalid :: "string \<Rightarrow> string \<Rightarrow> ValidationResult" where
  "invalid q e =
     \<lparr>v_valid = False, v_query = q, v_originalQuery = q, v_maxResults = 3, v_error = Some e\<rparr>"

definition validateSearchInput :: "string param \<Rightarrow> jsNumber param \<Rightarrow> ValidationResult" where
  "validateSearchInput query maxResults =
     (case query of
        Undefined \<Rightarrow> invalid [] ''Query is required''
      | Null \<Rightarrow> invalid [] ''Query is required''
      | Given q \<Rightarrow>
          let queryStr = trim q in
          if length queryStr = 0 then invalid [] ''Query cannot be empty''
          else if length queryStr > 500 then
            invalid [] ''Query exceeds maximum length of 500 characters''
          else
            (case maxResults of
               Given maxResultsNum \<Rightarrow>
                 if \<not> isInteger maxResultsNum \<or> maxResultsNum = NaN then
                   invalid queryStr ''max_results must be a positive integer''
                 else if numLess maxResultsNum 1 then
                   invalid queryStr ''max_results must be at least 1''
                 else if numGreater maxResultsNum 50 then
                   invalid queryStr ''max_results cannot exceed 50''
                 else
                   \<lparr>v_valid = True, v_query = expandQuery queryStr, v_originalQuery = queryStr,
                    v_maxResults = toInt maxResultsNum, v_error = None\<rparr>
             | _ \<Rightarrow>
                 \<lparr>v_valid = True, v_query = expandQuery queryStr, v_originalQuery = queryStr,
                  v_maxResults = 3, v_error = None\<rparr>))"

section \<open>The unified search\<close>

definition domainToTypeMap :: "(string \<times> string) list" where
  "domainToTypeMap =
    [(''color'', ''color''),
     (''chart'', ''chart''),
     (''landing'', ''landing''),
     (''product'', ''product''),
     (''prompt'', ''prompt''),
     (''style'', ''style''),
     (''ux'', ''ux-guideline''),
     (''typography'', ''typography''),
     (''icons'', ''icon''),
     (''platform'', ''platform'')]"

record ResultItem =
  item_data :: "(string \<times> string) list"
  item_score :: real

text \<open>
  An item of \<open>searchAll\<close>: the data of the document, the score and the detection metadata
  (\<open>_detectedDomains\<close>, \<open>_detectedStacks\<close>), each present only when something was
  detected.
\<close>

record SearchAllItem = ResultItem +
  detectedDomains :: "DomainMatch list option"
  detectedStacks :: "DomainMatch list option"


text \<open>\<open>result.document.data?.type\<close>.\<close>

definition resultType :: "SearchResult \<Rightarrow> string option" where
  "resultType r = map_of (data (document r)) ''type''"

text \<open>\<open>domainToTypeMap[domain]\<close>, where a missing or empty type counts as none.\<close>

definition targetTypeOf :: "string \<Rightarrow> string option" where
  "targetTypeOf d =
     (case map_of domainToTypeMap d of
        None \<Rightarrow> None
      | Some t \<Rightarrow> if t = [] then None else Some t)"

definition withMetadata ::
  "DomainMatch list \<Rightarrow> DomainMatch list \<Rightarrow> SearchResult \<Rightarrow> SearchAllItem" where
  "withMetadata domains stacks r =
     \<lparr>item_data = data (document r), item_score = score r,
      detectedDomains = (if length domains > 0 then Some domains else None),
      detectedStacks = (if length stacks > 0 then Some stacks else None)\<rparr>"

definition withoutMetadata :: "SearchResult \<Rightarrow> SearchAllItem" where
  "withoutMetadata r =
     \<lparr>item_data = data (document r), item_score = score r,
      detectedDomains = None, detectedStacks = None\<rparr>"

text \<open>
  Strategies 1 and 3: the results of the target type first, up to \<open>domainSlots\<close>, then the
  others.
\<close>

definition prioritize :: "string \<Rightarrow> int \<Rightarrow> int \<Rightarrow> SearchResult list \<Rightarrow> SearchResult list" where
  "prioritize targetType domainSlots maxResults results =
     (let (domainResults, otherResults) = partition (\<lambda>r. resultType r = Some targetType) results;
          otherSlots = maxResults - min domainSlots (int (length domainResults))
      in slice0 (slice0 domainResults domainSlots @ slice0 otherResults otherSlots) maxResults)"

text \<open>
  Strategy 2. The loop that groups the results: a result whose type is one of the target
  types is appended to the list of its type in the \<open>Map\<close> \<open>resultsByDomain\<close>, every other
  result to \<open>otherResults\<close>.
\<close>

definition groupStep ::
  "string list \<Rightarrow> (string \<times> SearchResult list) list \<times> SearchResult list \<Rightarrow> SearchResult \<Rightarrow>
   (string \<times> SearchResult list) list \<times> SearchResult list" where
  "groupStep targetTypes acc r =
     (case acc of (resultsByDomain, otherResults) \<Rightarrow>
        (case resultType r of
           None \<Rightarrow> (resultsByDomain, otherResults @ [r])
         | Some t \<Rightarrow>
             if t \<noteq> [] \<and> t \<in> set targetTypes then
               let existing = (case map_of resultsByDomain t of None \<Rightarrow> [] | Some rs \<Rightarrow> rs)
               in (mapSet resultsByDomain t (existing @ [r]), otherResults)
             else (resultsByDomain, otherResults @ [r])))"

text \<open>
  The numbers of the code are doubles, and the model takes them as reals. Where the code
  rounds a product up to an integer with \<open>Math.ceil\<close>, the last bit of the product decides
  the integer (\<open>25 * 0.56\<close> is \<open>14.000000000000002\<close> in the code, and 15 slots), so there the
  operations round as the code does: \<open>toDouble\<close> is the nearest double of a real of
  magnitude below \<open>2 ^ 1024\<close>, ties to the even mantissa, with 53 bits above
  \<open>2 ^ - 1022\<close> and multiples of \<open>2 ^ - 1074\<close> below; \<open>binaryExponent x\<close> is the \<open>e\<close> with
  \<open>2 ^ e \<le> x < 2 ^ (e + 1)\<close>, for \<open>x > 0\<close>.
\<close>

function exponentUp :: "real \<Rightarrow> int" where
  "exponentUp x = (if 2 \<le> x then exponentUp (x / 2) + 1 else 0)"
  by pat_completeness auto
termination
  by (relation "measure (\<lambda>x. nat \<lfloor>x\<rfloor>)") (auto simp: floor_less_iff, linarith)

function exponentDown :: "real \<Rightarrow> int" where
  "exponentDown x = (if 0 < x \<and> x < 1 then exponentDown (x * 2) - 1 else 0)"
  by pat_completeness auto
termination
proof (relation "measure (\<lambda>x. nat \<lceil>1 / x\<rceil>)")
  show "wf (measure (\<lambda>x :: real. nat \<lceil>1 / x\<rceil>))" by simp
next
  fix x :: real
  assume "0 < x \<and> x < 1"
  then have x: "0 < x" "x < 1" by simp_all
  then have "1 < 1 / x" by simp
  then have c: "2 \<le> \<lceil>1 / x\<rceil>" by linarith
  have "1 / (x * 2) = (1 / x) / 2" by simp
  also have "\<dots> \<le> real_of_int \<lceil>1 / x\<rceil> / 2" by (simp add: divide_right_mono)
  also have "\<dots> \<le> real_of_int (\<lceil>1 / x\<rceil> - 1)" using c by simp
  finally have "1 / (x * 2) \<le> real_of_int (\<lceil>1 / x\<rceil> - 1)" .
  then have "\<lceil>1 / (x * 2)\<rceil> \<le> \<lceil>1 / x\<rceil> - 1" by (rule ceiling_le)
  with c x show "(x * 2, x) \<in> measure (\<lambda>x. nat \<lceil>1 / x\<rceil>)" by simp
qed

declare exponentUp.simps [simp del] exponentDown.simps [simp del]

definition binaryExponent :: "real \<Rightarrow> int" where
  "binaryExponent x = (if 1 \<le> x then exponentUp x else exponentDown x)"

definition roundHalfEven :: "real \<Rightarrow> int" where
  "roundHalfEven y =
     (let f = \<lfloor>y\<rfloor>; r = y - real_of_int f
      in if r < 1 / 2 then f else if 1 / 2 < r then f + 1 else if even f then f else f + 1)"

text \<open>The distance of the doubles around \<open>x > 0\<close>.\<close>

definition ulp :: "real \<Rightarrow> real" where
  "ulp x = (let e = max (binaryExponent x) (- 1022) - 52
            in if 0 \<le> e then 2 ^ nat e else 1 / 2 ^ nat (- e))"

definition toDouble :: "real \<Rightarrow> real" where
  "toDouble x =
     (if x = 0 then 0
      else sgn x * (real_of_int (roundHalfEven (\<bar>x\<bar> / ulp \<bar>x\<bar>)) * ulp \<bar>x\<bar>))"

text \<open>\<open>x * y\<close> and \<open>x + y\<close> on doubles.\<close>

definition doubleTimes :: "real \<Rightarrow> real \<Rightarrow> real" where
  "doubleTimes x y = toDouble (toDouble x * toDouble y)"

definition doublePlus :: "real \<Rightarrow> real \<Rightarrow> real" where
  "doublePlus x y = toDouble (toDouble x + toDouble y)"

text \<open>\<open>Math.ceil(resultsPerDomain * domainMatch.confidence)\<close>.\<close>

definition slotsForDomain :: "int \<Rightarrow> real \<Rightarrow> int" where
  "slotsForDomain resultsPerDomain conf = \<lceil>doubleTimes (real_of_int resultsPerDomain) conf\<rceil>"

definition balance :: "DomainMatch list \<Rightarrow> int \<Rightarrow> SearchResult list \<Rightarrow> SearchResult list" where
  "balance multipleDomains maxResults results =
     (let targetTypes = List.map_filter (\<lambda>d. targetTypeOf (domain d)) multipleDomains;
          resultsPerDomain = max 2 \<lfloor>real_of_int maxResults / real (length multipleDomains)\<rfloor>;
          (resultsByDomain, otherResults) = foldl (groupStep targetTypes) ([], []) results;
          balancedResults =
            foldl (\<lambda>balanced domainMatch.
                     let domainRes =
                           (case map_of domainToTypeMap (domain domainMatch) of
                              None \<Rightarrow> []
                            | Some targetType \<Rightarrow>
                                (case map_of resultsByDomain targetType of
                                   None \<Rightarrow> [] | Some rs \<Rightarrow> rs))
                     in balanced @
                          slice0 domainRes (slotsForDomain resultsPerDomain (confidence domainMatch)))
              [] multipleDomains;
          remainingSlots = maxResults - int (length balancedResults);
          filled = (if remainingSlots > 0 then balancedResults @ slice0 otherResults remainingSlots
                    else balancedResults)
      in slice0 (sortBy scoreDesc filled) maxResults)"

text \<open>
  The strategies of \<open>searchAll\<close>, in the order of the source: a domain of confidence
  0.7 or more with a target type (1); else two or more domains of confidence 0.5 or more
  (2); else exactly one domain, of confidence 0.3 or more, with a target type (3); else
  the results as they are, without metadata (4).
\<close>

definition highConfidenceType :: "DomainMatch list \<Rightarrow> string option" where
  "highConfidenceType domains =
     (case find (\<lambda>d. confidence d \<ge> 0.7) domains of
        None \<Rightarrow> None
      | Some highConfidenceDomain \<Rightarrow> targetTypeOf (domain highConfidenceDomain))"

definition singleDomainType :: "DomainMatch list \<Rightarrow> string option" where
  "singleDomainType domains =
     (case domains of
        [d] \<Rightarrow> if confidence d \<ge> 0.3 then targetTypeOf (domain d) else None
      | _ \<Rightarrow> None)"

definition compose ::
  "DomainMatch list \<Rightarrow> DomainMatch list \<Rightarrow> int \<Rightarrow> SearchResult list \<Rightarrow> SearchAllItem list" where
  "compose domains stacks n results =
     (let multipleDomains = filter (\<lambda>d. confidence d \<ge> 0.5) domains
      in case highConfidenceType domains of
           Some targetType \<Rightarrow>
             map (withMetadata domains stacks)
               (prioritize targetType \<lceil>doubleTimes (real_of_int n) 0.8\<rceil> n results)
         | None \<Rightarrow>
             if length multipleDomains > 1 then
               map (withMetadata domains stacks) (balance multipleDomains n results)
             else
               (case singleDomainType domains of
                  Some targetType \<Rightarrow>
                    map (withMetadata domains stacks)
                      (prioritize targetType
                         \<lceil>doubleTimes (real_of_int n)
                            (doublePlus 0.5 (doubleTimes (confidence (hd domains)) 0.3))\<rceil>
                         n results)
                | None \<Rightarrow> map withoutMetadata (slice0 results n)))"


subsection \<open>Strategy 2 in closed form\<close>



text \<open>The slots of a domain, the results of a domain and the leftover results.\<close>

definition slots :: "int \<Rightarrow> nat \<Rightarrow> real \<Rightarrow> nat" where
  "slots n k conf =
     nat \<lceil>doubleTimes (real_of_int (max 2 \<lfloor>real_of_int n / real k\<rfloor>)) conf\<rceil>"

definition ofDomain :: "DomainMatch \<Rightarrow> SearchResult list \<Rightarrow> SearchResult list" where
  "ofDomain d rs = filter (\<lambda>r. resultType r = targetTypeOf (domain d)) rs"


definition balanced :: "DomainMatch list \<Rightarrow> int \<Rightarrow> SearchResult list \<Rightarrow> SearchResult list" where
  "balanced ds n rs =
     concat (map (\<lambda>d. take (slots n (length ds) (confidence d)) (ofDomain d rs)) ds)"



section \<open>Page intent\<close>

record PageIntentResult =
  intent :: string
  intent_confidence :: real
  matchedKeyword :: "string option"
  position :: int
  warnings :: "string list"

datatype KeywordGroup = KeywordGroup (group_keywords: "string list") (group_weight: real)

definition PAGE_INTENT_KEYWORDS :: "(string \<times> KeywordGroup list) list" where
  "PAGE_INTENT_KEYWORDS =
    [
     (''landing'',
       [KeywordGroup [''landing page''] 1,
        KeywordGroup [''landing''] 0.95,
        KeywordGroup [''homepage'', ''home page''] 0.9,
        KeywordGroup [''website'', ''web site''] 0.85,
        KeywordGroup [''hero''] 0.8,
        KeywordGroup [''cta'', ''call to action''] 0.75,
        KeywordGroup [''site''] 0.7,
        KeywordGroup [''web''] 0.6]),
     (''dashboard'',
       [KeywordGroup [''dashboard''] 1,
        KeywordGroup [''admin panel'', ''admin dashboard''] 0.95,
        KeywordGroup [''analytics''] 0.9,
        KeywordGroup [''metrics''] 0.85,
        KeywordGroup [''kpi'', ''kpis''] 0.8,
        KeywordGroup [''admin''] 0.75,
        KeywordGroup [''panel''] 0.7]),
     (''page'',
       [KeywordGroup [''page''] 0.6])]"

text \<open>
  The three nested loops over the intents, their groups and the keywords of a group
  visit these entries (intent, weight of the group, keyword), in this order.
\<close>

definition intentEntries :: "(string \<times> real \<times> string) list" where
  "intentEntries =
     concat (map (\<lambda>(intentType, keywordGroups).
       concat (map (\<lambda>g. map (\<lambda>kw. (intentType, group_weight g, kw)) (group_keywords g))
         keywordGroups)) PAGE_INTENT_KEYWORDS)"

datatype PhraseMatch =
  PhraseMatch (phrase: string) (phrase_intent: string) (phrase_weight: real) (phrase_position: nat)

text \<open>
  Phase 1: every keyword with a space that occurs in the query, with its first position.
  \<open>phraseOf\<close> is the body of the loops.
\<close>

definition phraseOf :: "string \<Rightarrow> string \<times> real \<times> string \<Rightarrow> PhraseMatch list" where
  "phraseOf lowerQuery e =
     (case e of (intentType, w, kw) \<Rightarrow>
        if CHR '' '' \<in> set kw then
          (case indexOf lowerQuery kw of
             Some pos \<Rightarrow> [PhraseMatch kw intentType w pos]
           | None \<Rightarrow> [])
        else [])"

definition phraseMatches :: "string \<Rightarrow> PhraseMatch list" where
  "phraseMatches lowerQuery = concat (map (phraseOf lowerQuery) intentEntries)"

text \<open>The comparator \<open>(a, b) => a.position - b.position || b.weight - a.weight\<close>.\<close>

definition phraseOrder :: "PhraseMatch \<Rightarrow> PhraseMatch \<Rightarrow> bool" where
  "phraseOrder x y =
     (if int (phrase_position x) - int (phrase_position y) \<noteq> 0
      then int (phrase_position x) - int (phrase_position y) \<le> 0
      else phrase_weight y - phrase_weight x \<le> 0)"

text \<open>The number of words in front of a character position.\<close>

definition wordPosition :: "string \<Rightarrow> nat \<Rightarrow> nat" where
  "wordPosition lowerQuery pos =
     length (filter (\<lambda>w. length w > 0) (splitWs (take pos lowerQuery)))"

text \<open>The confidence for a weight and a word position, both phases.\<close>

definition positionConfidence :: "real \<Rightarrow> nat \<Rightarrow> real" where
  "positionConfidence w wordPos =
     (let positionPenalty = min 0.3 (real wordPos * 0.05);
          finalConfidence = max 0.3 (w - positionPenalty)
      in real_of_int (jsRound (finalConfidence * 100)) / 100)"

text \<open>
  Phase 2: the tokens from left to right; a token that is a keyword without a space, of
  a group of weight 0.6 or more, returns. \<open>tokenMatches\<close> is the test of the loops.
\<close>

definition tokenMatches :: "string \<Rightarrow> string \<times> real \<times> string \<Rightarrow> bool" where
  "tokenMatches token e =
     (case e of (intentType, w, kw) \<Rightarrow> CHR '' '' \<notin> set kw \<and> token = kw \<and> w \<ge> 0.6)"

fun scanTokens :: "nat \<Rightarrow> string list \<Rightarrow> PageIntentResult option" where
  "scanTokens i [] = None"
| "scanTokens i (token # tokens) =
     (case find (tokenMatches token) intentEntries of
        Some (intentType, w, kw) \<Rightarrow>
          Some \<lparr>intent = intentType, intent_confidence = positionConfidence w i,
                matchedKeyword = Some kw, position = int i, warnings = []\<rparr>
      | None \<Rightarrow> scanTokens (Suc i) tokens)"

text \<open>A token is a keyword without a space.\<close>

definition singleWord :: "string \<Rightarrow> string \<times> real \<times> string \<Rightarrow> bool" where
  "singleWord token e = (case e of (intentType, w, kw) \<Rightarrow> CHR '' '' \<notin> set kw \<and> token = kw)"

definition classifyPageIntent :: "string \<Rightarrow> PageIntentResult" where
  "classifyPageIntent query =
     (let lowerQuery = trim (toLowerCase query)
      in case sortBy phraseOrder (phraseMatches lowerQuery) of
           best # _ \<Rightarrow>
             \<lparr>intent = phrase_intent best,
              intent_confidence =
                positionConfidence (phrase_weight best)
                  (wordPosition lowerQuery (phrase_position best)),
              matchedKeyword = Some (phrase best),
              position = int (wordPosition lowerQuery (phrase_position best)),
              warnings = []\<rparr>
         | [] \<Rightarrow>
             (case scanTokens 0 (splitWs lowerQuery) of
                Some r \<Rightarrow> r
              | None \<Rightarrow>
                  \<lparr>intent = ''unknown'', intent_confidence = 0, matchedKeyword = None,
                   position = - 1,
                   warnings = [''No page intent keywords detected in query'']\<rparr>))"

section \<open>Platform boost\<close>

record PlatformBoostConfig =
  boostFactor :: real
  penaltyFactor :: real
  enabled :: bool

definition DEFAULT_PLATFORM_BOOST_CONFIG :: PlatformBoostConfig where
  "DEFAULT_PLATFORM_BOOST_CONFIG = \<lparr>boostFactor = 1.5, penaltyFactor = 0.5, enabled = True\<rparr>"

text \<open>A partial configuration, and \<open>{ ...DEFAULT_PLATFORM_BOOST_CONFIG, ...config }\<close>.\<close>

record PartialBoostConfig =
  opt_boostFactor :: "real option"
  opt_penaltyFactor :: "real option"
  opt_enabled :: "bool option"

definition noConfig :: PartialBoostConfig where
  "noConfig = \<lparr>opt_boostFactor = None, opt_penaltyFactor = None, opt_enabled = None\<rparr>"

definition mergeConfig :: "PartialBoostConfig \<Rightarrow> PlatformBoostConfig" where
  "mergeConfig config =
     \<lparr>boostFactor = (case opt_boostFactor config of
                        None \<Rightarrow> boostFactor DEFAULT_PLATFORM_BOOST_CONFIG | Some x \<Rightarrow> x),
      penaltyFactor = (case opt_penaltyFactor config of
                        None \<Rightarrow> penaltyFactor DEFAULT_PLATFORM_BOOST_CONFIG | Some x \<Rightarrow> x),
      enabled = (case opt_enabled config of
                        None \<Rightarrow> enabled DEFAULT_PLATFORM_BOOST_CONFIG | Some x \<Rightarrow> x)\<rparr>"

text \<open>\<open>(result.data['Platform_Support'] || 'web').toLowerCase().trim()\<close>.\<close>

definition platformSupport :: "(string \<times> string) list \<Rightarrow> string" where
  "platformSupport d =
     trim (toLowerCase (case map_of d ''Platform_Support'' of
                          None \<Rightarrow> ''web''
                        | Some s \<Rightarrow> if s = [] then ''web'' else s))"

definition boostOf :: "PlatformBoostConfig \<Rightarrow> string \<Rightarrow> string \<Rightarrow> real" where
  "boostOf config detectedPlatform support =
     (let isMobilePlatform = (includes_str detectedPlatform ''mobile'' \<or>
            detectedPlatform = ''mobile-ios'' \<or> detectedPlatform = ''mobile-android'' \<or>
            detectedPlatform = ''mobile-generic'');
          isWebPlatform = (detectedPlatform = ''web'');
          isCrossPlatform = (detectedPlatform = ''cross-platform'')
      in if isWebPlatform then
           (if support = ''web'' \<or> support = ''both'' then boostFactor config
            else if support = ''mobile'' then penaltyFactor config else 1.0)
         else if isMobilePlatform then
           (if support = ''mobile'' \<or> support = ''both'' then boostFactor config
            else if support = ''web'' then penaltyFactor config else 1.0)
         else if isCrossPlatform then
           (if support = ''both'' then boostFactor config
            else if support = ''mobile'' then 1.2 else 1.0)
         else 1.0)"

definition itemScoreDesc :: "'a ResultItem_scheme \<Rightarrow> 'a ResultItem_scheme \<Rightarrow> bool" where
  "itemScoreDesc x y = (item_score y - item_score x \<le> 0)"

text \<open>
  The sort compares the products \<open>result.score * boost\<close>, and a tie of two products of
  reals need not be one of the doubles (\<open>0.1 * 1.5\<close> and \<open>0.3 * 0.5\<close>), so the product is
  that of the doubles.
\<close>

definition applyPlatformBoostWith ::
  "PartialBoostConfig \<Rightarrow> 'a ResultItem_scheme list \<Rightarrow> string \<Rightarrow> 'a ResultItem_scheme list" where
  "applyPlatformBoostWith partialConfig results detectedPlatform =
     (let config = mergeConfig partialConfig
      in if \<not> enabled config then results
         else if detectedPlatform = [] \<or> length results = 0 then results
         else sortBy itemScoreDesc
                (map (\<lambda>result.
                        result\<lparr>item_score :=
                          doubleTimes (item_score result)
                            (boostOf config detectedPlatform (platformSupport (item_data result)))\<rparr>)
                   results))"

text \<open>The call without a configuration.\<close>

definition applyPlatformBoost :: "'a ResultItem_scheme list \<Rightarrow> string \<Rightarrow> 'a ResultItem_scheme list" where
  "applyPlatformBoost results detectedPlatform =
     applyPlatformBoostWith noConfig results detectedPlatform"

text \<open>
  The factor as the specification has it, for the tags web, mobile and both and the
  platforms web, mobile-ios, mobile-android, mobile-generic and cross-platform: 1.5 when
  the tag matches the platform (both matches each), 0.5 when it does not, and for
  cross-platform 1.5, 1.2 and 1 for both, mobile and web.
\<close>

definition factor_spec :: "string \<Rightarrow> string \<Rightarrow> real" where
  "factor_spec detectedPlatform tag =
     (if detectedPlatform = ''cross-platform'' then
        (if tag = ''both'' then 1.5 else if tag = ''mobile'' then 1.2 else 1.0)
      else if tag = ''both'' \<or> (detectedPlatform = ''web'' \<and> tag = ''web'') \<or>
              (detectedPlatform \<noteq> ''web'' \<and> tag = ''mobile'')
           then 1.5 else 0.5)"

definition boosted :: "string \<Rightarrow> 'a ResultItem_scheme \<Rightarrow> 'a ResultItem_scheme" where
  "boosted detectedPlatform r =
     r\<lparr>item_score :=
         doubleTimes (item_score r)
           (factor_spec detectedPlatform (platformSupport (item_data r)))\<rparr>"

text \<open>Four results of score 2 for the examples: web, mobile, both, and one without a tag.\<close>

definition layoutResults :: "ResultItem list" where
  "layoutResults =
     [\<lparr>item_data = [(''Pattern Name'', ''w''), (''Platform_Support'', ''web'')], item_score = 2\<rparr>,
      \<lparr>item_data = [(''Pattern Name'', ''m''), (''Platform_Support'', ''mobile'')], item_score = 2\<rparr>,
      \<lparr>item_data = [(''Pattern Name'', ''b''), (''Platform_Support'', ''both'')], item_score = 2\<rparr>,
      \<lparr>item_data = [(''Pattern Name'', ''l'')], item_score = 2\<rparr>]"


section \<open>Properties of the tokenizer\<close>

lemma lowerChar_idem: "lowerChar (lowerChar c) = lowerChar c"
  unfolding lowerChar_def code_def by auto

lemma isSpace_space: "isSpace (CHR '' '')"
  by (simp add: isSpace_def code_def)

lemma lowerChar_space: "lowerChar (CHR '' '') = CHR '' ''"
  by (simp add: lowerChar_def code_def)

lemma splitWs_no_space: "t \<in> set (splitWs s) \<Longrightarrow> c \<in> set t \<Longrightarrow> \<not> isSpace c"
proof (induction s arbitrary: t rule: splitWs.induct)
  case 1
  then show ?case by simp
next
  case (2 d ds)
  show ?case
  proof (cases "isSpace d")
    case True
    with 2 show ?thesis by auto
  next
    case False
    show ?thesis
    proof (cases "splitWs ds")
      case Nil
      with False 2 show ?thesis by auto
    next
      case (Cons u us)
      with False "2.prems" have "t = d # u \<or> t \<in> set us" by auto
      then show ?thesis
      proof
        assume "t = d # u"
        with "2.prems" have "c = d \<or> c \<in> set u" by auto
        with False "2.IH"(2)[OF False, of u] Cons show ?thesis by auto
      next
        assume "t \<in> set us"
        with False "2.IH"(2)[OF False, of t] Cons "2.prems" show ?thesis by auto
      qed
    qed
  qed
qed

lemma splitWs_chars: "t \<in> set (splitWs s) \<Longrightarrow> c \<in> set t \<Longrightarrow> c \<in> set s"
proof (induction s arbitrary: t rule: splitWs.induct)
  case 1
  then show ?case by simp
next
  case (2 d ds)
  show ?case
  proof (cases "isSpace d")
    case True
    with 2 have "c \<in> set (dropWhile isSpace ds)" by auto
    then show ?thesis using set_dropWhileD by fastforce
  next
    case False
    show ?thesis
    proof (cases "splitWs ds")
      case Nil
      with False 2 show ?thesis by auto
    next
      case (Cons u us)
      with False "2.prems" have "t = d # u \<or> t \<in> set us" by auto
      then show ?thesis
      proof
        assume "t = d # u"
        with "2.prems" have "c = d \<or> c \<in> set u" by auto
        with False "2.IH"(2)[OF False, of u] Cons show ?thesis by auto
      next
        assume "t \<in> set us"
        with False "2.IH"(2)[OF False, of t] Cons "2.prems" show ?thesis by auto
      qed
    qed
  qed
qed

lemma splitWs_word: "\<forall>c\<in>set t. \<not> isSpace c \<Longrightarrow> splitWs t = [t]"
  by (induction t) auto

lemma splitWs_word_sep:
  "\<forall>c\<in>set t. \<not> isSpace c \<Longrightarrow> isSpace s \<Longrightarrow>
   splitWs (t @ s # rest) = t # splitWs (dropWhile isSpace rest)"
  by (induction t) auto

lemma joinSpace_Cons: "ts \<noteq> [] \<Longrightarrow> joinSpace (t # ts) = t @ CHR '' '' # joinSpace ts"
  by (cases ts) auto

lemma dropWhile_joinSpace:
  "t \<noteq> [] \<Longrightarrow> \<forall>c\<in>set t. \<not> isSpace c \<Longrightarrow>
   dropWhile isSpace (joinSpace (t # ts)) = joinSpace (t # ts)"
  by (cases t; cases ts) auto

lemma splitWs_joinSpace:
  "ts \<noteq> [] \<Longrightarrow> \<forall>t\<in>set ts. t \<noteq> [] \<and> (\<forall>c\<in>set t. \<not> isSpace c) \<Longrightarrow>
   splitWs (joinSpace ts) = ts"
proof (induction ts)
  case Nil
  then show ?case by simp
next
  case (Cons t ts)
  show ?case
  proof (cases ts)
    case Nil
    with Cons.prems show ?thesis by (simp add: splitWs_word)
  next
    case (Cons u us)
    with Cons.prems Cons.IH show ?thesis
      by (simp add: joinSpace_Cons splitWs_word_sep isSpace_space dropWhile_joinSpace
          del: joinSpace.simps)
  qed
qed

lemma in_map_map: "c \<in> set (map f (map g xs)) \<Longrightarrow> \<exists>d. c = f (g d)"
  by auto

text \<open>
  Every token is longer than one character and made of lower-case word characters only.
\<close>

lemma tokenize_clean:
  assumes "t \<in> set (tokenize x)"
  shows "length t > 1 \<and> (\<forall>c\<in>set t. cleanChar c)"
proof -
  let ?f = "\<lambda>c. if isWordChar c \<or> isSpace c then c else CHR '' ''"
  from assms have len: "length t > 1" and mem: "t \<in> set (splitWs (map ?f (toLowerCase x)))"
    by (auto simp: tokenize_def)
  have "cleanChar c" if "c \<in> set t" for c
  proof -
    have ns: "\<not> isSpace c" using splitWs_no_space[OF mem that] .
    from splitWs_chars[OF mem that] obtain d where d: "c = ?f (lowerChar d)"
      unfolding toLowerCase_def by (blast dest: in_map_map)
    with ns have "isWordChar (lowerChar d)" "c = lowerChar d"
      by (auto simp: isSpace_space split: if_splits)
    with ns show ?thesis by (simp add: cleanChar_def lowerChar_idem)
  qed
  with len show ?thesis by blast
qed

lemma joinSpace_chars:
  "c \<in> set (joinSpace ts) \<Longrightarrow> c = CHR '' '' \<or> (\<exists>t\<in>set ts. c \<in> set t)"
  by (induction ts rule: joinSpace.induct) auto

text \<open>
  Claim C10. Tokenizing a text, joining the tokens with single spaces and tokenizing
  again gives the tokens of the text: \<open>tokenize(tokenize(x).join(' ')) == tokenize(x)\<close>
  for every string \<open>x\<close>.
\<close>

theorem tokenize_idempotent: "tokenize (joinSpace (tokenize x)) = tokenize x"
proof (cases "tokenize x = []")
  case True
  then show ?thesis by (simp add: tokenize_def toLowerCase_def)
next
  case False
  let ?ts = "tokenize x"
  let ?f = "\<lambda>c. if isWordChar c \<or> isSpace c then c else CHR '' ''"
  have clean: "\<And>t c. t \<in> set ?ts \<Longrightarrow> c \<in> set t \<Longrightarrow> cleanChar c"
    and len: "\<And>t. t \<in> set ?ts \<Longrightarrow> length t > 1"
    using tokenize_clean by blast+
  have chars: "lowerChar c = c \<and> (isWordChar c \<or> isSpace c)" if "c \<in> set (joinSpace ?ts)" for c
    using joinSpace_chars[OF that] clean
    by (auto simp: cleanChar_def isSpace_space lowerChar_space)
  have "map ?f (toLowerCase (joinSpace ?ts)) = joinSpace ?ts"
    unfolding toLowerCase_def map_map by (rule map_idI) (use chars in auto)
  moreover have "splitWs (joinSpace ?ts) = ?ts"
  proof (rule splitWs_joinSpace[OF False], rule ballI, rule conjI)
    fix t assume t: "t \<in> set ?ts"
    from len[OF t] show "t \<noteq> []" by auto
    from clean[OF t] show "\<forall>c\<in>set t. \<not> isSpace c" by (auto simp: cleanChar_def)
  qed
  moreover have "filter (\<lambda>token. length token > 1) ?ts = ?ts"
    by (rule filter_True) (use len in auto)
  ultimately show ?thesis by (simp add: tokenize_def[of "joinSpace ?ts"])
qed

text \<open>The same on a concrete text, with the tokens computed.\<close>

theorem tokenize_idempotent_witness:
  "tokenize ''Dark-Mode  UI, a glassmorphism card!'' = [''dark'', ''mode'', ''ui'', ''glassmorphism'', ''card''] \<and>
   tokenize (joinSpace (tokenize ''Dark-Mode  UI, a glassmorphism card!'')) =
     [''dark'', ''mode'', ''ui'', ''glassmorphism'', ''card'']"
proof -
  have e: "tokenize ''Dark-Mode  UI, a glassmorphism card!'' =
      [''dark'', ''mode'', ''ui'', ''glassmorphism'', ''card'']"
    by code_simp
  show ?thesis
    using tokenize_idempotent [of "''Dark-Mode  UI, a glassmorphism card!''"] e by simp
qed

section \<open>Properties of the stable sort\<close>

lemma set_insertBy: "set (insertBy le x ys) = insert x (set ys)"
  by (induction ys) auto

lemma set_sortBy: "set (sortBy le xs) = set xs"
  by (induction xs) (auto simp: sortBy_def set_insertBy)

lemma length_insertBy: "length (insertBy le x ys) = Suc (length ys)"
  by (induction ys) auto

lemma length_sortBy: "length (sortBy le xs) = length xs"
  by (induction xs) (auto simp: sortBy_def length_insertBy)

lemma sortBy_Cons: "sortBy le (x # xs) = insertBy le x (sortBy le xs)"
  by (simp add: sortBy_def)

lemma sortBy_Nil: "sortBy le [] = []"
  by (simp add: sortBy_def)

lemma sorted_insertBy:
  assumes total: "\<And>x y. le x y \<or> le y x" and trans: "\<And>x y z. le x y \<Longrightarrow> le y z \<Longrightarrow> le x z"
  shows "sorted_wrt le ys \<Longrightarrow> sorted_wrt le (insertBy le x ys)"
proof (induction ys)
  case Nil
  then show ?case by simp
next
  case (Cons y ys)
  show ?case
  proof (cases "le x y")
    case True
    with Cons.prems trans show ?thesis by auto
  next
    case False
    with total have "le y x" by blast
    with False Cons show ?thesis by (auto simp: set_insertBy)
  qed
qed

lemma sorted_sortBy:
  assumes "\<And>x y. le x y \<or> le y x" and "\<And>x y z. le x y \<Longrightarrow> le y z \<Longrightarrow> le x z"
  shows "sorted_wrt le (sortBy le xs)"
proof (induction xs)
  case Nil
  show ?case by (simp add: sortBy_Nil)
next
  case (Cons x xs)
  show ?case
    unfolding sortBy_Cons using assms(1) assms(2) Cons by (rule sorted_insertBy)
qed

lemma filter_insertBy_tied:
  assumes "\<And>y. P x \<Longrightarrow> P y \<Longrightarrow> le x y"
  shows "filter P (insertBy le x ys) = (if P x then x # filter P ys else filter P ys)"
  using assms by (induction ys) auto

text \<open>The sort is stable: elements that the comparator ties keep their order.\<close>

lemma filter_sortBy_tied:
  assumes "\<And>x y. P x \<Longrightarrow> P y \<Longrightarrow> le x y"
  shows "filter P (sortBy le xs) = filter P xs"
  by (induction xs) (auto simp: sortBy_Nil sortBy_Cons filter_insertBy_tied assms)


section \<open>Properties of the BM25 index\<close>

lemma getOrZero_increment: "getOrZero (increment m x) k = getOrZero m k + (if x = k then 1 else 0)"
  by (simp add: getOrZero_def increment_def)

lemma getOrZero_foldl_increment:
  "getOrZero (foldl increment m xs) k = getOrZero m k + count_list xs k"
  by (induction xs arbitrary: m) (auto simp: getOrZero_increment)

lemma getOrZero_empty: "getOrZero Map.empty k = 0"
  by (simp add: getOrZero_def)

lemma set_foldl_setAdd: "set (foldl setAdd acc xs) = set acc \<union> set xs"
  by (induction xs arbitrary: acc) (auto simp: setAdd_def)

lemma distinct_foldl_setAdd: "distinct acc \<Longrightarrow> distinct (foldl setAdd acc xs)"
  by (induction xs arbitrary: acc) (auto simp: setAdd_def)

lemma set_newSet: "set (newSet xs) = set xs"
  by (simp add: newSet_def set_foldl_setAdd)

lemma distinct_newSet: "distinct (newSet xs)"
  by (simp add: newSet_def distinct_foldl_setAdd)

lemma count_list_distinct: "distinct xs \<Longrightarrow> count_list xs k = (if k \<in> set xs then 1 else 0)"
  by (induction xs) auto

lemma getOrZero_docFrequencies_aux:
  "getOrZero (foldl (\<lambda>m tokens. foldl increment m (newSet tokens)) m tds) t =
   getOrZero m t + length (filter (\<lambda>tokens. t \<in> set tokens) tds)"
  by (induction tds arbitrary: m)
     (auto simp: getOrZero_foldl_increment count_list_distinct distinct_newSet set_newSet)

lemma getOrZero_calculateDocFrequencies:
  "getOrZero (calculateDocFrequencies tds) t = length (filter (\<lambda>tokens. t \<in> set tokens) tds)"
  by (simp add: calculateDocFrequencies_def getOrZero_docFrequencies_aux getOrZero_empty)

lemma df_BM25_new: "getOrZero (docFrequencies (BM25_new docs)) t = df_spec docs t"
  by (simp add: BM25_new_def Let_def getOrZero_calculateDocFrequencies df_spec_def filter_map o_def)

lemma foldl_total_length:
  "foldl (\<lambda>sum tokens. sum + length tokens) a tds = a + (\<Sum>ts\<leftarrow>tds. length ts)"
  by (induction tds arbitrary: a) auto

lemma real_sum_list: "real (sum_list (map f xs)) = (\<Sum>x\<leftarrow>xs. real (f x))"
  by (induction xs) auto

lemma avg_BM25_new: "avgDocLength (BM25_new docs) = avgDocLen_spec docs"
  by (simp add: BM25_new_def Let_def calculateAvgDocLength_def avgDocLen_spec_def
      foldl_total_length docLen_spec_def o_def real_sum_list[symmetric])

lemma idf_BM25_new: "idf (BM25_new docs) t = idf_spec docs t"
  by (simp add: idf_def idf_spec_def Let_def df_BM25_new) (simp add: BM25_new_def Let_def)

lemma foldl_score_sum:
  "foldl (\<lambda>sc t. let tf = f t in if tf = (0::nat) then sc else sc + g t tf) (a::real) q =
   a + (\<Sum>t\<leftarrow>filter (\<lambda>t. f t \<noteq> 0) q. g t (f t))"
  by (induction q arbitrary: a) (auto simp: Let_def)

text \<open>The score of the source is the sum of the specification.\<close>

lemma score_doc_BM25_new:
  assumes "i < length docs"
  shows "score_doc (BM25_new docs) q i = Some (bm25_spec docs q (docs ! i))"
proof -
  let ?idx = "BM25_new docs"
  have td: "tokenizedDocs ?idx = map (\<lambda>doc. tokenize (content doc)) docs"
    by (simp add: BM25_new_def Let_def)
  have tf: "getOrZero (foldl increment Map.empty (tokenize (content (docs ! i)))) t = tf_spec (docs ! i) t" for t
    by (simp add: getOrZero_foldl_increment getOrZero_empty tf_spec_def)
  have contrib: "idf ?idx t * numerator (tf_spec (docs ! i) t) /
        denominator ?idx (tf_spec (docs ! i) t) (length (tokenize (content (docs ! i))))
      = contribution_spec docs (docs ! i) t" for t
    by (simp add: idf_BM25_new numerator_def denominator_def avg_BM25_new contribution_spec_def
        k1_def b_def docLen_spec_def)
  show ?thesis
    using assms
    by (simp add: score_doc_def td tf foldl_score_sum bm25_spec_def
        contrib cong: if_cong)
qed


lemma score_doc_single_zero:
  assumes "i < length docs" and "tf_spec (docs ! i) t = 0"
  shows "score_doc (BM25_new docs) [t] i = Some 0"
  using assms by (simp add: score_doc_BM25_new bm25_spec_def)

text \<open>
  Claim C1. For an index built over the documents \<open>docs\<close> (so \<open>N = length docs\<close>), a
  list of query terms \<open>q\<close> and the document at position \<open>i\<close>, the score is the sum, over
  the query terms whose term frequency in the document is not zero, of
  \<open>idf(t) * (tf * (k1 + 1)) / (tf + k1 * (1 - b + b * docLen / avgDocLen))\<close> with
  \<open>idf(t) = ln ((N - df(t) + 0.5) / (df(t) + 0.5) + 1)\<close>, \<open>k1 = 1.5\<close> and \<open>b = 0.75\<close>; a
  query term whose term frequency in the document is zero contributes 0.
\<close>

theorem bm25_score_formula:
  assumes "i < length docs"
  shows "score_doc (BM25_new docs) q i =
      Some (\<Sum>t\<leftarrow>filter (\<lambda>t. tf_spec (docs ! i) t \<noteq> 0) q.
        ln ((real (length docs) - real (df_spec docs t) + 0.5) / (real (df_spec docs t) + 0.5) + 1) *
          (real (tf_spec (docs ! i) t) * (1.5 + 1)) /
          (real (tf_spec (docs ! i) t) +
            1.5 * (1 - 0.75 + 0.75 * real (docLen_spec (docs ! i)) / avgDocLen_spec docs))) \<and>
    (\<forall>t. tf_spec (docs ! i) t = 0 \<longrightarrow>
      score_doc (BM25_new docs) [t] i = Some 0 \<and>
      score_doc (BM25_new docs) (q @ [t]) i = score_doc (BM25_new docs) q i)"
proof -
  have "score_doc (BM25_new docs) q i = Some (bm25_spec docs q (docs ! i))"
    using assms by (rule score_doc_BM25_new)
  moreover have "score_doc (BM25_new docs) (q @ [t]) i = score_doc (BM25_new docs) q i"
    if "tf_spec (docs ! i) t = 0" for t
    using assms that by (simp add: score_doc_BM25_new bm25_spec_def)
  ultimately show ?thesis
    using assms
    by (simp add: bm25_spec_def contribution_spec_def idf_spec_def score_doc_single_zero)
qed

text \<open>
  Two documents, \<open>hex font hex\<close> and \<open>font serif\<close>, and the query term \<open>hex\<close>: in the first
  document \<open>N = 2\<close>, \<open>df = 1\<close>, \<open>tf = 2\<close>, the length is 3 and the average length 5/2.
\<close>

theorem bm25_score_formula_witness:
  "score_doc (BM25_new [docA, docB]) [''hex''] 0 = Some (ln 2 * 200 / 149)"
proof -
  have t1: "tokenize ''hex font hex'' = [''hex'', ''font'', ''hex'']" by code_simp
  have t2: "tokenize ''font serif'' = [''font'', ''serif'']" by code_simp
  show ?thesis
    using bm25_score_formula [of 0 "[docA, docB]" "[''hex'']"]
    by (simp add: tf_spec_def df_spec_def docLen_spec_def avgDocLen_spec_def t1 t2
        docA_def docB_def)
qed

subsection \<open>Search\<close>







lemma avgDocLen_spec_pos: "0 < avgDocLen_spec docs"
proof -
  have "0 \<le> (\<Sum>d\<leftarrow>docs. real (docLen_spec d))" by (rule sum_list_nonneg) auto
  then have "0 \<le> (\<Sum>d\<leftarrow>docs. real (docLen_spec d)) / real (length docs)" by simp
  then show ?thesis unfolding avgDocLen_spec_def Let_def by (auto simp: less_le)
qed

lemma df_spec_le: "df_spec docs t \<le> length docs"
  by (simp add: df_spec_def)

lemma idf_spec_pos: "0 < idf_spec docs t"
proof -
  have "0 < (real (length docs) - real (df_spec docs t) + 0.5) / (real (df_spec docs t) + 0.5)"
    using df_spec_le[of docs t] by (intro divide_pos_pos) auto
  then show ?thesis by (simp add: idf_spec_def)
qed

lemma denominator_spec_pos:
  "0 < real tf + 1.5 * (1 - 0.75 + 0.75 * real n / avgDocLen_spec docs)"
proof -
  have "0 \<le> 0.75 * real n / avgDocLen_spec docs"
    using avgDocLen_spec_pos[of docs] by simp
  then show ?thesis by (simp add: add_pos_nonneg add_nonneg_pos)
qed

lemma contribution_spec_pos: "tf_spec doc t \<noteq> 0 \<Longrightarrow> 0 < contribution_spec docs doc t"
  unfolding contribution_spec_def
  by (intro divide_pos_pos mult_pos_pos idf_spec_pos denominator_spec_pos) auto

lemma sum_list_pos_iff:
  "(\<And>x. x \<in> set xs \<Longrightarrow> 0 < f x) \<Longrightarrow> 0 < (\<Sum>x\<leftarrow>xs. (f x :: real)) \<longleftrightarrow> xs \<noteq> []"
proof (induction xs)
  case Nil
  then show ?case by simp
next
  case (Cons x xs)
  have "0 \<le> (\<Sum>x\<leftarrow>xs. f x)" by (rule sum_list_nonneg) (use Cons.prems in force)
  moreover have "0 < f x" using Cons.prems by simp
  ultimately show ?case by simp
qed

text \<open>A score is never negative, and positive exactly when a query term occurs in the document.\<close>

lemma bm25_spec_pos_iff: "0 < bm25_spec docs q doc \<longleftrightarrow> (\<exists>t\<in>set q. tf_spec doc t \<noteq> 0)"
  unfolding bm25_spec_def
  by (subst sum_list_pos_iff) (auto simp: contribution_spec_pos filter_empty_conv)

lemma bm25_spec_nonneg: "0 \<le> bm25_spec docs q doc"
  unfolding bm25_spec_def
  by (rule sum_list_nonneg) (auto simp: less_imp_le contribution_spec_pos)












section \<open>Properties of the keyword classifiers\<close>

subsection \<open>Keyword matching\<close>

lemma startsWith_iff: "startsWith s k \<longleftrightarrow> (\<exists>post. s = k @ post)"
  by (induction s k rule: startsWith.induct) auto

lemma indexOf_None_iff: "indexOf s k = None \<longleftrightarrow> \<not> (\<exists>pre post. s = pre @ k @ post)"
proof (induction s)
  case Nil
  then show ?case by auto
next
  case (Cons c cs)
  show ?case
  proof (cases "startsWith (c # cs) k")
    case True
    then obtain post where "c # cs = [] @ k @ post" by (auto simp: startsWith_iff)
    with True show ?thesis by (metis indexOf.simps(2) option.distinct(1))
  next
    case False
    have "(\<exists>pre post. c # cs = pre @ k @ post) \<longleftrightarrow> (\<exists>pre post. cs = pre @ k @ post)"
    proof
      assume "\<exists>pre post. c # cs = pre @ k @ post"
      then obtain pre post where e: "c # cs = pre @ k @ post" by blast
      with False have "pre \<noteq> []" by (auto simp: startsWith_iff)
      with e show "\<exists>pre post. cs = pre @ k @ post" by (cases pre) auto
    next
      assume "\<exists>pre post. cs = pre @ k @ post"
      then obtain pre post where "cs = pre @ k @ post" by blast
      then have "c # cs = (c # pre) @ k @ post" by simp
      then show "\<exists>pre post. c # cs = pre @ k @ post" by blast
    qed
    with False Cons show ?thesis by simp
  qed
qed

lemma includes_str_iff: "includes_str s k \<longleftrightarrow> (\<exists>pre post. s = pre @ k @ post)"
  by (simp add: includes_str_def indexOf_None_iff)

lemma matchesHere_iff:
  "matchesHere k s \<longleftrightarrow> (\<exists>mid post. s = mid @ post \<and> map canonicalize mid = map canonicalize k)"
proof (induction k s rule: matchesHere.induct)
  case (1 s)
  then show ?case by simp
next
  case (2 k ks)
  then show ?case by simp
next
  case (3 k ks c cs)
  show ?case
  proof
    assume "matchesHere (k # ks) (c # cs)"
    with 3 obtain mid post where "canonicalize k = canonicalize c" "cs = mid @ post"
      "map canonicalize mid = map canonicalize ks" by (auto split: if_splits)
    then have "c # cs = (c # mid) @ post \<and> map canonicalize (c # mid) = map canonicalize (k # ks)"
      by simp
    then show "\<exists>mid post. c # cs = mid @ post \<and> map canonicalize mid = map canonicalize (k # ks)"
      by blast
  next
    assume "\<exists>mid post. c # cs = mid @ post \<and> map canonicalize mid = map canonicalize (k # ks)"
    then obtain mid post where e: "c # cs = mid @ post" "map canonicalize mid = map canonicalize (k # ks)"
      by blast
    then obtain m ms where m: "mid = m # ms" by (cases mid) auto
    with e have "canonicalize k = canonicalize c" "cs = ms @ post"
      "map canonicalize ms = map canonicalize ks" by auto
    with 3 show "matchesHere (k # ks) (c # cs)" by auto
  qed
qed

lemma matchAt_unfold:
  "matchAt prev k s \<longleftrightarrow>
   (wordBoundary prev (firstChar s) \<and> matchesHere k s \<and>
    wordBoundary (lastChar prev (take (length k) s)) (firstChar (drop (length k) s)))"
  by (simp add: matchAt_def)

lemma matchAt_iff:
  "matchAt prev k s \<longleftrightarrow>
   (\<exists>mid post. s = mid @ post \<and> map canonicalize mid = map canonicalize k \<and>
      wordBoundary prev (firstChar (mid @ post)) \<and>
      wordBoundary (lastChar prev mid) (firstChar post))"
proof
  assume m: "matchAt prev k s"
  then obtain mid post where e: "s = mid @ post" "map canonicalize mid = map canonicalize k"
    unfolding matchAt_unfold matchesHere_iff by blast
  then have "length mid = length k" by (metis length_map)
  with e have "take (length k) s = mid" "drop (length k) s = post" by simp_all
  with m e show "\<exists>mid post. s = mid @ post \<and> map canonicalize mid = map canonicalize k \<and>
      wordBoundary prev (firstChar (mid @ post)) \<and>
      wordBoundary (lastChar prev mid) (firstChar post)"
    unfolding matchAt_unfold by metis
next
  assume "\<exists>mid post. s = mid @ post \<and> map canonicalize mid = map canonicalize k \<and>
      wordBoundary prev (firstChar (mid @ post)) \<and>
      wordBoundary (lastChar prev mid) (firstChar post)"
  then obtain mid post where e: "s = mid @ post" "map canonicalize mid = map canonicalize k"
    "wordBoundary prev (firstChar (mid @ post))" "wordBoundary (lastChar prev mid) (firstChar post)"
    by blast
  then have "length mid = length k" by (metis length_map)
  with e have t: "take (length k) s = mid" "drop (length k) s = post" by simp_all
  have "matchesHere k s" unfolding matchesHere_iff using e by blast
  with e t show "matchAt prev k s" unfolding matchAt_unfold by simp
qed

lemma lastChar_Nil: "lastChar prev [] = prev"
  by (simp add: lastChar_def)

lemma lastChar_Cons: "lastChar prev (c # s) = lastChar (Some c) s"
  by (simp add: lastChar_def)

lemma regexTest_iff:
  "regexTest prev k s \<longleftrightarrow>
   (\<exists>pre mid post. s = pre @ mid @ post \<and> map canonicalize mid = map canonicalize k \<and>
      wordBoundary (lastChar prev pre) (firstChar (mid @ post)) \<and>
      wordBoundary (lastChar prev (pre @ mid)) (firstChar post))"
  (is "_ \<longleftrightarrow> ?R prev s")
proof (induction s arbitrary: prev)
  case Nil
  show ?case by (simp add: matchAt_iff lastChar_Nil)
next
  case (Cons c cs)
  have "?R prev (c # cs) \<longleftrightarrow> matchAt prev k (c # cs) \<or> ?R (Some c) cs"
  proof
    assume "?R prev (c # cs)"
    then obtain pre mid post where e: "c # cs = pre @ mid @ post"
      "map canonicalize mid = map canonicalize k"
      "wordBoundary (lastChar prev pre) (firstChar (mid @ post))"
      "wordBoundary (lastChar prev (pre @ mid)) (firstChar post)" by blast
    show "matchAt prev k (c # cs) \<or> ?R (Some c) cs"
    proof (cases pre)
      case Nil
      with e have "c # cs = mid @ post" "wordBoundary prev (firstChar (mid @ post))"
        "wordBoundary (lastChar prev mid) (firstChar post)"
        by (simp_all add: lastChar_Nil)
      with e(2) have "matchAt prev k (c # cs)"
        unfolding matchAt_iff by blast
      then show ?thesis ..
    next
      case (Cons p ps)
      with e have "cs = ps @ mid @ post" "p = c" by auto
      moreover from e Cons \<open>p = c\<close> have "wordBoundary (lastChar (Some c) ps) (firstChar (mid @ post))"
        "wordBoundary (lastChar (Some c) (ps @ mid)) (firstChar post)"
        by (simp_all add: lastChar_Cons)
      ultimately have "?R (Some c) cs" using e(2) by blast
      then show ?thesis ..
    qed
  next
    assume "matchAt prev k (c # cs) \<or> ?R (Some c) cs"
    then show "?R prev (c # cs)"
    proof
      assume "matchAt prev k (c # cs)"
      then obtain mid post where m: "c # cs = mid @ post" "map canonicalize mid = map canonicalize k"
        "wordBoundary prev (firstChar (mid @ post))"
        "wordBoundary (lastChar prev mid) (firstChar post)"
        unfolding matchAt_iff by blast
      then have "c # cs = [] @ mid @ post"
        "wordBoundary (lastChar prev []) (firstChar (mid @ post))"
        "wordBoundary (lastChar prev ([] @ mid)) (firstChar post)"
        by (simp_all add: lastChar_Nil)
      with m(2) show ?thesis by blast
    next
      assume "?R (Some c) cs"
      then obtain pre mid post where e: "cs = pre @ mid @ post"
        "map canonicalize mid = map canonicalize k"
        "wordBoundary (lastChar (Some c) pre) (firstChar (mid @ post))"
        "wordBoundary (lastChar (Some c) (pre @ mid)) (firstChar post)" by blast
      then have "c # cs = (c # pre) @ mid @ post"
        "wordBoundary (lastChar prev (c # pre)) (firstChar (mid @ post))"
        "wordBoundary (lastChar prev ((c # pre) @ mid)) (firstChar post)"
        by (simp_all add: lastChar_Cons)
      with e(2) show ?thesis by blast
    qed
  qed
  with Cons show ?case by simp
qed


subsection \<open>Domain and stack detection\<close>

lemma foldl_max_Max: "foldl max (m::real) ws = Max (insert m (set ws))"
proof (induction ws arbitrary: m)
  case Nil
  then show ?case by simp
next
  case (Cons w ws)
  have "Max (insert (max m w) (set ws)) = Max (insert m (insert w (set ws)))"
    by (cases "set ws = {}") (simp_all add: max.assoc)
  with Cons show ?case by simp
qed

lemma scanKeywords_aux:
  "foldl (\<lambda>(maxScore, matchCount) e.
            if matchesKeyword q (keyword e)
            then (max maxScore (weight e), matchCount + 1)
            else (maxScore, matchCount)) (m, c) kws =
   (foldl max m (map weight (filter (\<lambda>e. matchesKeyword q (keyword e)) kws)),
    c + length (filter (\<lambda>e. matchesKeyword q (keyword e)) kws))"
  by (induction kws arbitrary: m c) auto

lemma scanKeywords_eq:
  "scanKeywords q kws =
   (Max (insert 0 (weight ` set (filter (\<lambda>e. matchesKeyword q (keyword e)) kws))),
    length (filter (\<lambda>e. matchesKeyword q (keyword e)) kws))"
  by (simp add: scanKeywords_def scanKeywords_aux foldl_max_Max)

lemma scanKeywords_nonneg: "0 \<le> fst (scanKeywords q kws)"
  by (simp add: scanKeywords_eq)

lemma mapSet_fresh: "k \<notin> fst ` set m \<Longrightarrow> mapSet m k v = m @ [(k, v)]"
  by (induction m k v rule: mapSet.induct) auto

lemma set_mapSet: "set (mapSet m k v) \<subseteq> insert (k, v) (set m)"
  by (induction m k v rule: mapSet.induct) auto

lemma categoryScores_aux:
  assumes "distinct (map fst table)" and "fst ` set acc \<inter> fst ` set table = {}"
  shows "foldl (\<lambda>scores (category, keywords).
              let (maxScore, matchCount) = scanKeywords q keywords
              in if matchCount > 0 then
                   let multiMatchBoost = min 0.1 (real (matchCount - 1) * 0.03);
                       finalScore = min 1.0 (maxScore + multiMatchBoost)
                   in mapSet scores category finalScore
                 else scores) acc table =
         acc @ map (\<lambda>(c, kws). (c, loopScore q kws))
                 (filter (\<lambda>(c, kws). snd (scanKeywords q kws) > 0) table)"
  using assms
proof (induction table arbitrary: acc)
  case Nil
  then show ?case by simp
next
  case (Cons e table)
  obtain c kws where e: "e = (c, kws)" by (cases e)
  from Cons.prems e have fresh: "c \<notin> fst ` set acc" by auto
  show ?case
  proof (cases "snd (scanKeywords q kws) > 0")
    case True
    have "fst ` set (acc @ [(c, loopScore q kws)]) \<inter> fst ` set table = {}"
      using Cons.prems e by auto
    moreover have "distinct (map fst table)" using Cons.prems by simp
    ultimately show ?thesis
      using Cons.IH[of "acc @ [(c, loopScore q kws)]"] True fresh e
      by (simp add: mapSet_fresh loopScore_def split_beta Let_def)
  next
    case False
    have "fst ` set acc \<inter> fst ` set table = {}" using Cons.prems by auto
    moreover have "distinct (map fst table)" using Cons.prems by simp
    ultimately show ?thesis
      using Cons.IH[of acc] False e by (simp add: split_beta Let_def)
  qed
qed

lemma categoryScores_eq:
  "distinct (map fst table) \<Longrightarrow>
   categoryScores table q =
     map (\<lambda>(c, kws). (c, loopScore q kws)) (filter (\<lambda>(c, kws). snd (scanKeywords q kws) > 0) table)"
  unfolding categoryScores_def using categoryScores_aux[of table "[]" q] by simp

lemma loopScore_bounds: "0 \<le> loopScore q kws \<and> loopScore q kws \<le> 1"
  using scanKeywords_nonneg[of q kws] by (simp add: loopScore_def)

lemma distinct_domainKeywordsWeighted: "distinct (map fst domainKeywordsWeighted)"
  by code_simp

lemma distinct_stackKeywordsWeighted: "distinct (map fst stackKeywordsWeighted)"
  by code_simp

lemma weights_domainKeywordsWeighted:
  "list_all (\<lambda>(c, kws). list_all (\<lambda>e. 0 \<le> weight e) kws) domainKeywordsWeighted"
  by code_simp

lemma distinct_map_insertBy:
  "distinct (map g (insertBy le x ys)) \<longleftrightarrow> distinct (map g (x # ys))"
  by (induction ys) (auto simp: set_insertBy)

lemma distinct_map_sortBy: "distinct (map g (sortBy le xs)) \<longleftrightarrow> distinct (map g xs)"
  by (induction xs) (auto simp: sortBy_Nil sortBy_Cons distinct_map_insertBy set_sortBy)

lemma confidenceDesc_iff: "confidenceDesc x y \<longleftrightarrow> confidence y \<le> confidence x"
  by (simp add: confidenceDesc_def)

lemma detectDomains_eq:
  "detectDomains q = filter (\<lambda>r. confidence r \<ge> 0.2) (sortBy confidenceDesc (matches_of domainKeywordsWeighted q))"
  by (simp add: detectDomains_def categoryScores_eq distinct_domainKeywordsWeighted matches_of_def
      case_prod_unfold o_def Let_def)

lemma detectStacks_eq:
  "detectStacks q = filter (\<lambda>r. confidence r \<ge> 0.3) (sortBy confidenceDesc (matches_of stackKeywordsWeighted q))"
  by (simp add: detectStacks_def categoryScores_eq distinct_stackKeywordsWeighted matches_of_def
      case_prod_unfold o_def Let_def)

lemma matches_of_bounds:
  "r \<in> set (matches_of table q) \<Longrightarrow> 0 \<le> confidence r \<and> confidence r \<le> 1"
  using loopScore_bounds by (auto simp: matches_of_def)

lemma sorted_filter_sortBy_confidence:
  "sorted_wrt (\<lambda>x y. confidence y \<le> confidence x) (filter P (sortBy confidenceDesc xs))"
proof -
  have "sorted_wrt confidenceDesc (sortBy confidenceDesc xs)"
    by (rule sorted_sortBy) (auto simp: confidenceDesc_iff)
  then have "sorted_wrt confidenceDesc (filter P (sortBy confidenceDesc xs))"
    by (rule sorted_wrt_filter)
  then show ?thesis
    by (rule sorted_wrt_mono_rel[rotated]) (simp add: confidenceDesc_iff)
qed

lemma loopScore_spec:
  assumes "list_all (\<lambda>e. 0 \<le> weight e) kws" and "matchedEntries q kws \<noteq> []"
  shows "loopScore (toLowerCase q) kws = categoryScore_spec q kws"
proof -
  let ?m = "matchedEntries q kws"
  let ?W = "weight ` set ?m"
  have ne: "?W \<noteq> {}" "finite ?W" using assms(2) by auto
  have "\<forall>w\<in>?W. 0 \<le> w" using assms(1) by (auto simp: matchedEntries_def list_all_iff)
  then have "0 \<le> Max ?W" using ne by (meson Max_in)
  then have "Max (insert 0 ?W) = Max ?W" using ne by (simp add: max_def)
  moreover have "length ?m \<noteq> 0" using assms(2) by simp
  then have "min 0.1 (real (length ?m - 1) * 0.03) =
      (if length ?m \<ge> 2 then min 0.1 (real (length ?m - 1) * 0.03) else 0)"
    by (cases "length ?m \<ge> 2") (auto simp: not_le less_Suc_eq numeral_2_eq_2)
  ultimately show ?thesis
    unfolding loopScore_def categoryScore_spec_def Let_def scanKeywords_eq matchedEntries_def
    by simp
qed

lemma matches_of_domain_mem:
  assumes "distinct (map fst table)"
    and "list_all (\<lambda>(c, kws). list_all (\<lambda>e. 0 \<le> weight e) kws) table"
  shows "DomainMatch d c \<in> set (matches_of table q) \<longleftrightarrow>
     (\<exists>kws. (d, kws) \<in> set table \<and> matchedEntries q kws \<noteq> [] \<and> c = categoryScore_spec q kws)"
proof -
  have pos: "snd (scanKeywords (toLowerCase q) kws) > 0 \<longleftrightarrow> matchedEntries q kws \<noteq> []" for kws
    by (simp add: scanKeywords_eq matchedEntries_def)
  have w: "list_all (\<lambda>e. 0 \<le> weight e) kws" if "(d, kws) \<in> set table" for d kws
    using assms(2) that by (auto simp: list_all_iff)
  show ?thesis
  proof
    assume "DomainMatch d c \<in> set (matches_of table q)"
    then obtain kws where k: "(d, kws) \<in> set table" "matchedEntries q kws \<noteq> []"
      "c = loopScore (toLowerCase q) kws"
      by (auto simp: matches_of_def pos)
    with loopScore_spec[OF w[OF k(1)] k(2)] show "\<exists>kws. (d, kws) \<in> set table \<and> matchedEntries q kws \<noteq> [] \<and> c = categoryScore_spec q kws"
      by auto
  next
    assume "\<exists>kws. (d, kws) \<in> set table \<and> matchedEntries q kws \<noteq> [] \<and> c = categoryScore_spec q kws"
    then obtain kws where k: "(d, kws) \<in> set table" "matchedEntries q kws \<noteq> []"
      "c = categoryScore_spec q kws" by blast
    with loopScore_spec[OF w[OF k(1)] k(2)] have "c = loopScore (toLowerCase q) kws" by simp
    with k show "DomainMatch d c \<in> set (matches_of table q)"
      by (force simp: matches_of_def pos)
  qed
qed

lemma distinct_matches_of:
  "distinct (map fst table) \<Longrightarrow> distinct (map domain (matches_of table q))"
proof -
  assume d: "distinct (map fst table)"
  have "map domain (matches_of table q) =
      map fst (filter (\<lambda>(c, kws). snd (scanKeywords (toLowerCase q) kws) > 0) table)"
    by (simp add: matches_of_def split_beta o_def)
  then show ?thesis using d by (simp add: distinct_map_filter)
qed

text \<open>
  Claim C4. For every query, \<open>detectDomains\<close> returns a category with a confidence exactly
  when the category has at least one matched keyword, the confidence is the largest
  weight among its matched keywords plus the boost \<open>min(0.1, (matchCount - 1) * 0.03)\<close>
  for two or more matched keywords, capped at 1, and that confidence is at least 0.2;
  the categories without a matched keyword and those scoring below 0.2 are not returned;
  the returned categories are sorted by confidence, descending, each once.
\<close>

theorem detectDomains_spec:
  "(\<forall>d c. DomainMatch d c \<in> set (detectDomains q) \<longleftrightarrow>
      (\<exists>kws. (d, kws) \<in> set domainKeywordsWeighted \<and> matchedEntries q kws \<noteq> [] \<and>
         c = categoryScore_spec q kws \<and> c \<ge> 0.2)) \<and>
   sorted_wrt (\<lambda>x y. confidence y \<le> confidence x) (detectDomains q) \<and>
   distinct (map domain (detectDomains q))"
proof (intro conjI allI)
  fix d c
  show "DomainMatch d c \<in> set (detectDomains q) \<longleftrightarrow>
      (\<exists>kws. (d, kws) \<in> set domainKeywordsWeighted \<and> matchedEntries q kws \<noteq> [] \<and>
         c = categoryScore_spec q kws \<and> c \<ge> 0.2)"
    using matches_of_domain_mem[OF distinct_domainKeywordsWeighted weights_domainKeywordsWeighted, of d c q]
    by (auto simp: detectDomains_eq set_sortBy)
next
  show "sorted_wrt (\<lambda>x y. confidence y \<le> confidence x) (detectDomains q)"
    unfolding detectDomains_eq by (rule sorted_filter_sortBy_confidence)
next
  show "distinct (map domain (detectDomains q))"
    unfolding detectDomains_eq
    by (intro distinct_map_filter)
       (simp add: distinct_map_sortBy distinct_matches_of distinct_domainKeywordsWeighted)
qed


lemma detectDomains_sidebar: "detectDomains ''sidebar navigation'' = [DomainMatch ''ux'' 0.4]"
  by code_simp

lemma detectDomains_bar_chart: "detectDomains ''bar chart comparison'' = [DomainMatch ''chart'' 1]"
  by code_simp

lemma bar_in_sidebar: "matchesKeyword ''sidebar navigation'' ''bar'' = False"
  by code_simp


text \<open>The query \<open>bar chart comparison\<close> matches three chart keywords: 0.95 + 0.06, capped at 1.\<close>

theorem detectDomains_spec_witness:
  "DomainMatch ''chart'' 1 \<in> set (detectDomains ''bar chart comparison'') \<and>
   (\<exists>kws. (''chart'', kws) \<in> set domainKeywordsWeighted \<and>
      matchedEntries ''bar chart comparison'' kws \<noteq> [] \<and>
      1 = categoryScore_spec ''bar chart comparison'' kws \<and> (1::real) \<ge> 0.2)"
proof -
  have m: "DomainMatch ''chart'' 1 \<in> set (detectDomains ''bar chart comparison'')"
    by (simp add: detectDomains_bar_chart)
  with detectDomains_spec [of "''bar chart comparison''"] show ?thesis by blast
qed

text \<open>
  Claim C7. A keyword with a space matches when the query contains it as a substring; a
  keyword without a space matches when it occurs in the query, up to case, with a word
  boundary on both sides. So \<open>bar\<close> does not match in \<open>sidebar navigation\<close>, which gives no
  chart domain, and \<open>bar chart comparison\<close> gives the domain chart.
\<close>

theorem matchesKeyword_boundary:
  "(\<forall>q k. CHR '' '' \<in> set k \<longrightarrow>
      (matchesKeyword q k \<longleftrightarrow> (\<exists>pre post. q = pre @ k @ post))) \<and>
   (\<forall>q k. CHR '' '' \<notin> set k \<longrightarrow>
      (matchesKeyword q k \<longleftrightarrow>
        (\<exists>pre mid post. q = pre @ mid @ post \<and> map canonicalize mid = map canonicalize k \<and>
           wordBoundary (lastChar None pre) (firstChar (mid @ post)) \<and>
           wordBoundary (lastChar None (pre @ mid)) (firstChar post)))) \<and>
   \<not> matchesKeyword (toLowerCase ''sidebar navigation'') ''bar'' \<and>
   ''chart'' \<notin> domain ` set (detectDomains ''sidebar navigation'') \<and>
   ''chart'' \<in> domain ` set (detectDomains ''bar chart comparison'')"
proof -
  have "toLowerCase ''sidebar navigation'' = ''sidebar navigation''" by code_simp
  then have "\<not> matchesKeyword (toLowerCase ''sidebar navigation'') ''bar''"
    by (simp add: bar_in_sidebar)
  then show ?thesis
    by (simp add: matchesKeyword_def includes_str_iff regexTest_iff
        detectDomains_sidebar detectDomains_bar_chart)
qed

lemma matches_bar_chart: "matchesKeyword ''bar chart comparison'' ''bar chart''"
  by code_simp

lemma matches_bar: "matchesKeyword ''bar chart comparison'' ''bar''"
  by code_simp

theorem matchesKeyword_boundary_witness:
  "CHR '' '' \<in> set ''bar chart'' \<and> matchesKeyword ''bar chart comparison'' ''bar chart'' \<and>
   (\<exists>pre post. ''bar chart comparison'' = pre @ ''bar chart'' @ post) \<and>
   CHR '' '' \<notin> set ''bar'' \<and> matchesKeyword ''bar chart comparison'' ''bar'' \<and>
   (\<exists>pre mid post. ''bar chart comparison'' = pre @ mid @ post \<and>
      map canonicalize mid = map canonicalize ''bar'' \<and>
      wordBoundary (lastChar None pre) (firstChar (mid @ post)) \<and>
      wordBoundary (lastChar None (pre @ mid)) (firstChar post))"
proof -
  have a: "CHR '' '' \<in> set ''bar chart''" and b: "CHR '' '' \<notin> set ''bar''" by simp_all
  from matchesKeyword_boundary a matches_bar_chart
  have "\<exists>pre post. ''bar chart comparison'' = pre @ ''bar chart'' @ post" by blast
  moreover from matchesKeyword_boundary b matches_bar
  have "\<exists>pre mid post. ''bar chart comparison'' = pre @ mid @ post \<and>
      map canonicalize mid = map canonicalize ''bar'' \<and>
      wordBoundary (lastChar None pre) (firstChar (mid @ post)) \<and>
      wordBoundary (lastChar None (pre @ mid)) (firstChar post)" by blast
  ultimately show ?thesis using a b matches_bar_chart matches_bar by blast
qed

subsection \<open>Confidence bounds\<close>

lemma platformScores_bounds_aux:
  assumes "\<forall>(p, s, kws)\<in>set acc. 0 \<le> s \<and> s \<le> 1"
  shows "\<forall>(p, s, kws)\<in>set (foldl (\<lambda>scores (p, keywords).
              let matched = matchedKeywords q keywords;
                  maxWeight = fst (scanKeywords q keywords)
              in if length matched > 0 then
                   let multiMatchBoost = min 0.15 (real (length matched - 1) * 0.05);
                       finalScore = min 1.0 (maxWeight + multiMatchBoost)
                   in mapSet scores p (finalScore, matched)
                 else scores) acc table). 0 \<le> (s::real) \<and> s \<le> 1"
  using assms
proof (induction table arbitrary: acc)
  case Nil
  then show ?case by simp
next
  case (Cons e table)
  obtain p kws where e: "e = (p, kws)" by (cases e)
  let ?v = "min 1.0 (fst (scanKeywords q kws) +
      min 0.15 (real (length (matchedKeywords q kws) - 1) * 0.05))"
  have v: "0 \<le> ?v \<and> ?v \<le> 1" using scanKeywords_nonneg[of q kws] by simp
  have "\<forall>(p, s, kws)\<in>set (mapSet acc p (?v, matchedKeywords q kws)). 0 \<le> s \<and> s \<le> 1"
    using set_mapSet[of acc p "(?v, matchedKeywords q kws)"] Cons.prems v by fastforce
  with Cons.prems show ?case
    unfolding e by (simp add: Let_def Cons.IH del: mapSet.simps)
qed

lemma platformScores_bounds: "\<forall>(p, s, kws)\<in>set (platformScores q). 0 \<le> s \<and> s \<le> 1"
  unfolding platformScores_def by (rule platformScores_bounds_aux) auto

lemma bestPlatform_bounds_aux:
  assumes "\<forall>(p, s, kws)\<in>set scores. 0 \<le> s \<and> s \<le> (1::real)" and "0 \<le> s0 \<and> s0 \<le> 1"
  shows "0 \<le> fst (snd (foldl (\<lambda>(bestP, bestScore, bestKeywords) (p, sc, kws).
              if sc > bestScore then (p, sc, kws) else (bestP, bestScore, bestKeywords))
       (p0, s0, k0) scores)) \<and>
     fst (snd (foldl (\<lambda>(bestP, bestScore, bestKeywords) (p, sc, kws).
              if sc > bestScore then (p, sc, kws) else (bestP, bestScore, bestKeywords))
       (p0, s0, k0) scores)) \<le> 1"
  using assms
proof (induction scores arbitrary: p0 s0 k0)
  case Nil
  then show ?case by simp
next
  case (Cons e scores)
  obtain p s kws where e: "e = (p, s, kws)" by (cases e)
  with Cons.prems have "0 \<le> s \<and> s \<le> 1" by auto
  with Cons.prems show ?case unfolding e by (simp add: Cons.IH)
qed

lemma bestPlatform_bounds:
  "0 \<le> fst (snd (bestPlatform (platformScores q))) \<and> fst (snd (bestPlatform (platformScores q))) \<le> 1"
  unfolding bestPlatform_def
  by (rule bestPlatform_bounds_aux) (use platformScores_bounds in auto)

lemma jsRound_percent_bounds:
  assumes "0 \<le> x" and "x \<le> 1"
  shows "0 \<le> real_of_int (jsRound (x * 100)) / 100 \<and> real_of_int (jsRound (x * 100)) / 100 \<le> 1"
proof -
  have "0 \<le> jsRound (x * 100)" using assms unfolding jsRound_def by simp
  moreover have "jsRound (x * 100) \<le> 100"
    using assms unfolding jsRound_def by (simp add: floor_le_iff)
  ultimately show ?thesis by simp
qed

lemma detectPlatformIntent_bounds:
  "0 \<le> platform_confidence (detectPlatformIntent q) \<and> platform_confidence (detectPlatformIntent q) \<le> 1"
proof -
  obtain p s kws where b: "bestPlatform (platformScores (toLowerCase q)) = (p, s, kws)"
    by (metis prod_cases3)
  with bestPlatform_bounds[of "toLowerCase q"] have "0 \<le> s" "s \<le> 1" by simp_all
  then show ?thesis
    using jsRound_percent_bounds[of s]
    by (simp add: detectPlatformIntent_def Let_def b)
qed

text \<open>
  Claim C9. For every query, every match of \<open>detectDomains\<close> and of \<open>detectStacks\<close> and the
  result of \<open>detectPlatformIntent\<close> has a confidence between 0 and 1: the boost for several
  matched keywords never takes it above 1.
\<close>

theorem confidence_bounds:
  "(\<forall>m\<in>set (detectDomains q). 0 \<le> confidence m \<and> confidence m \<le> 1) \<and>
   (\<forall>m\<in>set (detectStacks q). 0 \<le> confidence m \<and> confidence m \<le> 1) \<and>
   0 \<le> platform_confidence (detectPlatformIntent q) \<and>
   platform_confidence (detectPlatformIntent q) \<le> 1"
  using matches_of_bounds detectPlatformIntent_bounds[of q]
  by (auto simp: detectDomains_eq detectStacks_eq set_sortBy)

lemma detectStacks_example:
  "detectStacks ''react hooks with next.js'' = [DomainMatch ''react'' 1, DomainMatch ''nextjs'' 1]"
  by code_simp

lemma detectPlatformIntent_example:
  "platform_confidence (detectPlatformIntent ''ios app with swiftui tab bar'') = 1"
  by code_simp

theorem confidence_bounds_witness:
  "DomainMatch ''chart'' 1 \<in> set (detectDomains ''bar chart comparison'') \<and>
   (0::real) \<le> confidence (DomainMatch ''chart'' 1) \<and> confidence (DomainMatch ''chart'' 1) \<le> 1 \<and>
   DomainMatch ''react'' 1 \<in> set (detectStacks ''react hooks with next.js'') \<and>
   platform_confidence (detectPlatformIntent ''ios app with swiftui tab bar'') = 1"
  using confidence_bounds [of "''bar chart comparison''"]
  by (simp add: detectDomains_bar_chart detectStacks_example detectPlatformIntent_example)


section \<open>Properties of the validation\<close>

lemma invalid_simps:
  "v_valid (invalid q e) = False" "v_error (invalid q e) = Some e"
  by (simp_all add: invalid_def)

lemma toInt_Finite: "isInteger (Finite x) \<Longrightarrow> real_of_int (toInt (Finite x)) = x"
  by (simp add: isInteger_def toInt_def)


text \<open>
  Claim C8, as the code has it. \<open>validateSearchInput\<close> returns an error result exactly when
  the query is absent or null, the trimmed query is empty, the trimmed query is longer
  than 500 characters, or \<open>maxResults\<close> is given and is not an integer, is below 1 or is
  above 50. The error is a non-empty string in the result. Otherwise the result is valid
  and carries the trimmed query as the original query, the expanded trimmed query, and
  \<open>maxResults\<close>, or 3 when that is absent or null.
\<close>

theorem validateSearchInput_contract:
  "(\<not> v_valid (validateSearchInput query maxResults) \<longleftrightarrow>
      (query = Undefined \<or> query = Null \<or>
       (\<exists>q. query = Given q \<and> (trim q = [] \<or> length (trim q) > 500)) \<or>
       (\<exists>n. maxResults = Given n \<and> (\<not> isInteger n \<or> numLess n 1 \<or> numGreater n 50)))) \<and>
   (\<not> v_valid (validateSearchInput query maxResults) \<longrightarrow>
      (\<exists>e. v_error (validateSearchInput query maxResults) = Some e \<and> e \<noteq> [])) \<and>
   (v_valid (validateSearchInput query maxResults) \<longrightarrow>
      v_error (validateSearchInput query maxResults) = None \<and>
      (\<exists>q. query = Given q \<and>
         v_originalQuery (validateSearchInput query maxResults) = trim q \<and>
         v_query (validateSearchInput query maxResults) = expandQuery (trim q)) \<and>
      (case maxResults of
         Given n \<Rightarrow> (\<exists>x. n = Finite x \<and> real_of_int (v_maxResults (validateSearchInput query maxResults)) = x \<and>
                        1 \<le> x \<and> x \<le> 50)
       | _ \<Rightarrow> v_maxResults (validateSearchInput query maxResults) = 3))"
proof (cases query)
  case Undefined
  then show ?thesis by (simp add: validateSearchInput_def invalid_simps)
next
  case Null
  then show ?thesis by (simp add: validateSearchInput_def invalid_simps)
next
  case (Given q)
  show ?thesis
  proof (cases "trim q = [] \<or> length (trim q) > 500")
    case True
    with Given show ?thesis
      by (auto simp: validateSearchInput_def invalid_simps Let_def)
  next
    case False
    show ?thesis
    proof (cases maxResults)
      case Undefined
      with Given False show ?thesis by (simp add: validateSearchInput_def Let_def)
    next
      case Null
      with Given False show ?thesis by (simp add: validateSearchInput_def Let_def)
    next
      case n: (Given n)
      show ?thesis
      proof (cases "\<not> isInteger n \<or> numLess n 1 \<or> numGreater n 50")
        case True
        with Given False n show ?thesis
          by (auto simp: validateSearchInput_def invalid_simps Let_def isInteger_def)
      next
        case ok: False
        then obtain x where x: "n = Finite x" by (cases n) (auto simp: isInteger_def)
        with ok have "real_of_int (toInt n) = x" "1 \<le> x" "x \<le> 50"
          by (auto simp: toInt_Finite numLess_def numGreater_def)
        with Given False n ok x show ?thesis
          by (simp add: validateSearchInput_def Let_def)
      qed
    qed
  qed
qed

lemma trim_example: "trim '' hex font  '' = ''hex font''"
  by code_simp

lemma expandQuery_hex_font: "expandQuery ''hex font'' = ''hex font''"
  by code_simp

theorem validateSearchInput_contract_witness:
  "v_valid (validateSearchInput (Given '' hex font  '') (Given (Finite 50))) \<and>
   v_error (validateSearchInput (Given '' hex font  '') (Given (Finite 50))) = None \<and>
   v_originalQuery (validateSearchInput (Given '' hex font  '') (Given (Finite 50))) = ''hex font'' \<and>
   v_query (validateSearchInput (Given '' hex font  '') (Given (Finite 50))) = ''hex font'' \<and>
   v_maxResults (validateSearchInput (Given '' hex font  '') (Given (Finite 50))) = 50 \<and>
   \<not> v_valid (validateSearchInput (Given '' hex font  '') (Given (Finite 51)))"
  using validateSearchInput_contract [of "Given '' hex font  ''" "Given (Finite 50)"]
    validateSearchInput_contract [of "Given '' hex font  ''" "Given (Finite 51)"]
  by (simp add: trim_example expandQuery_hex_font isInteger_def numLess_def numGreater_def)

lemma trim_padded:
  "\<not> isSpace c \<Longrightarrow> trim (c # replicate n (CHR '' '')) = [c]"
proof -
  assume c: "\<not> isSpace c"
  have "dropWhile isSpace (replicate n (CHR '' '') @ [c]) = [c]"
    using c by (induction n) (simp_all add: isSpace_space)
  with c show ?thesis by (simp add: trim_def)
qed

text \<open>
  A query of 501 characters, the letter \<open>a\<close> and 500 spaces, is valid: the length is
  checked after trimming.
\<close>

theorem validate_length_counterexample:
  "length (CHR ''a'' # replicate 500 (CHR '' '')) > 500 \<and>
   v_valid (validateSearchInput (Given (CHR ''a'' # replicate 500 (CHR '' ''))) Undefined)"
proof -
  have "\<not> isSpace (CHR ''a'')" by code_simp
  then have "trim (CHR ''a'' # replicate 500 (CHR '' '')) = ''a''" by (rule trim_padded)
  then show ?thesis by (simp add: validateSearchInput_def Let_def)
qed


section \<open>Properties of the unified search\<close>









subsection \<open>Rounding to doubles\<close>


lemma ulp_pos: "0 < ulp x"
  by (simp add: ulp_def Let_def)



text \<open>
  The double product decides the slots: \<open>25 * 0.56\<close> is above 14 in the code, where the
  product of the reals is 14; \<open>2 * 0.6\<close> is \<open>1.2\<close> rounded either way.
\<close>

lemma slotsForDomain_25: "slotsForDomain 25 0.56 = 15 \<and> \<lceil>25 * (0.56 :: real)\<rceil> = 14"
  by code_simp








lemma detectDomains_nonneg: "r \<in> set (detectDomains q) \<Longrightarrow> 0 \<le> confidence r"
  using matches_of_bounds by (auto simp: detectDomains_eq set_sortBy)



















section \<open>Properties of the page intent classifier\<close>

lemma phraseOrder_total: "phraseOrder x y \<or> phraseOrder y x"
  by (auto simp: phraseOrder_def)

lemma phraseOrder_trans: "phraseOrder x y \<Longrightarrow> phraseOrder y z \<Longrightarrow> phraseOrder x z"
  by (auto simp: phraseOrder_def split: if_splits)

lemma phraseOrder_iff:
  "phraseOrder x y \<longleftrightarrow>
   phrase_position x < phrase_position y \<or>
   (phrase_position x = phrase_position y \<and> phrase_weight y \<le> phrase_weight x)"
  by (auto simp: phraseOrder_def)

lemma sortBy_empty_iff: "sortBy le xs = [] \<longleftrightarrow> xs = []"
  using length_sortBy[of le xs] by (metis length_0_conv)

text \<open>The first element of the sorted list precedes every element.\<close>

lemma hd_sortBy_phraseOrder:
  assumes "sortBy phraseOrder pm = best # rest"
  shows "best \<in> set pm \<and> (\<forall>m\<in>set pm. phraseOrder best m)"
proof -
  have s: "sorted_wrt phraseOrder (best # rest)"
    using sorted_sortBy[of phraseOrder pm] phraseOrder_total phraseOrder_trans assms by metis
  have set: "set pm = insert best (set rest)"
    using set_sortBy[of phraseOrder pm] assms by simp
  have "phraseOrder best best" using phraseOrder_total by blast
  with s set show ?thesis by auto
qed

lemma single_weights:
  "list_all (\<lambda>(intentType, w, kw). CHR '' '' \<notin> set kw \<longrightarrow> w \<ge> 0.6) intentEntries"
  by code_simp

lemma find_single: "find (tokenMatches token) intentEntries = find (singleWord token) intentEntries"
proof (rule find_cong[OF refl])
  fix e assume "e \<in> set intentEntries"
  then show "tokenMatches token e = singleWord token e"
    using single_weights by (auto simp: singleWord_def tokenMatches_def list_all_iff)
qed

lemma scanTokens_Some:
  "scanTokens i tokens = Some r \<Longrightarrow>
   \<exists>j intentType w kw. j < length tokens \<and> (intentType, w, kw) \<in> set intentEntries \<and>
      CHR '' '' \<notin> set kw \<and> tokens ! j = kw \<and>
      (\<forall>j'<j. \<forall>e\<in>set intentEntries. \<not> singleWord (tokens ! j') e) \<and>
      r = \<lparr>intent = intentType, intent_confidence = positionConfidence w (i + j),
           matchedKeyword = Some kw, position = int (i + j), warnings = []\<rparr>"
proof (induction tokens arbitrary: i)
  case Nil
  then show ?case by simp
next
  case (Cons token tokens)
  show ?case
  proof (cases "find (singleWord token) intentEntries")
    case None
    then have no: "\<forall>e\<in>set intentEntries. \<not> singleWord token e" by (auto simp: find_None_iff)
    from None Cons.prems have "scanTokens (Suc i) tokens = Some r" by (simp add: find_single)
    from Cons.IH[OF this] obtain j intentType w kw where j: "j < length tokens"
      "(intentType, w, kw) \<in> set intentEntries" "CHR '' '' \<notin> set kw" "tokens ! j = kw"
      "\<forall>j'<j. \<forall>e\<in>set intentEntries. \<not> singleWord (tokens ! j') e"
      "r = \<lparr>intent = intentType, intent_confidence = positionConfidence w (Suc i + j),
           matchedKeyword = Some kw, position = int (Suc i + j), warnings = []\<rparr>" by blast
    have "\<forall>j'<Suc j. \<forall>e\<in>set intentEntries. \<not> singleWord ((token # tokens) ! j') e"
      using no j(5) by (auto simp: less_Suc_eq_0_disj)
    with j show ?thesis
      by (intro exI[of _ "Suc j"] exI[of _ intentType] exI[of _ w] exI[of _ kw]) simp
  next
    case (Some e)
    obtain intentType w kw where e: "e = (intentType, w, kw)" by (cases e)
    from Some have "e \<in> set intentEntries" "singleWord token e"
      by (auto simp: find_Some_iff in_set_conv_nth)
    with e Some Cons.prems show ?thesis
      by (intro exI[of _ 0] exI[of _ intentType] exI[of _ w] exI[of _ kw])
         (auto simp: find_single singleWord_def)
  qed
qed

lemma scanTokens_None:
  "scanTokens i tokens = None \<Longrightarrow> \<forall>token\<in>set tokens. \<forall>e\<in>set intentEntries. \<not> singleWord token e"
proof (induction tokens arbitrary: i)
  case Nil
  then show ?case by simp
next
  case (Cons token tokens)
  show ?case
  proof (cases "find (singleWord token) intentEntries")
    case None
    then have no: "\<forall>e\<in>set intentEntries. \<not> singleWord token e" by (auto simp: find_None_iff)
    from None Cons.prems have "scanTokens (Suc i) tokens = None" by (simp add: find_single)
    from Cons.IH[OF this] no show ?thesis by simp
  next
    case (Some e)
    with Cons.prems show ?thesis by (auto simp: find_single split: prod.splits)
  qed
qed

lemma phraseMatches_concat: "phraseMatches lq = concat (map (phraseOf lq) intentEntries)"
  by (simp add: phraseMatches_def)

lemma phraseOf_mem:
  "m \<in> set (phraseOf lq (intentType, w, kw)) \<longleftrightarrow>
   CHR '' '' \<in> set kw \<and> (\<exists>pos. indexOf lq kw = Some pos \<and> m = PhraseMatch kw intentType w pos)"
proof (cases "CHR '' '' \<in> set kw")
  case False
  then have "phraseOf lq (intentType, w, kw) = []" by (simp add: phraseOf_def)
  with False show ?thesis by simp
next
  case True
  show ?thesis
  proof (cases "indexOf lq kw")
    case None
    with True have "phraseOf lq (intentType, w, kw) = []" by (simp add: phraseOf_def)
    with None show ?thesis by simp
  next
    case (Some pos)
    with True have "phraseOf lq (intentType, w, kw) = [PhraseMatch kw intentType w pos]"
      by (simp add: phraseOf_def)
    with True Some show ?thesis by simp
  qed
qed

lemma phraseMatches_mem:
  "m \<in> set (phraseMatches lq) \<longleftrightarrow>
   (\<exists>intentType w kw pos. (intentType, w, kw) \<in> set intentEntries \<and> CHR '' '' \<in> set kw \<and>
      indexOf lq kw = Some pos \<and> m = PhraseMatch kw intentType w pos)"
proof
  assume "m \<in> set (phraseMatches lq)"
  then obtain e where e: "e \<in> set intentEntries" "m \<in> set (phraseOf lq e)"
    by (auto simp: phraseMatches_concat)
  obtain intentType w kw where "e = (intentType, w, kw)" by (cases e)
  with e show "\<exists>intentType w kw pos. (intentType, w, kw) \<in> set intentEntries \<and> CHR '' '' \<in> set kw \<and>
      indexOf lq kw = Some pos \<and> m = PhraseMatch kw intentType w pos"
    by (metis phraseOf_mem)
next
  assume "\<exists>intentType w kw pos. (intentType, w, kw) \<in> set intentEntries \<and> CHR '' '' \<in> set kw \<and>
      indexOf lq kw = Some pos \<and> m = PhraseMatch kw intentType w pos"
  then obtain intentType w kw pos where k: "(intentType, w, kw) \<in> set intentEntries"
    "CHR '' '' \<in> set kw" "indexOf lq kw = Some pos" "m = PhraseMatch kw intentType w pos" by blast
  then have "m \<in> set (phraseOf lq (intentType, w, kw))" by (simp add: phraseOf_mem)
  with k(1) show "m \<in> set (phraseMatches lq)"
    unfolding phraseMatches_concat set_concat by (metis UN_I set_map image_eqI)
qed

lemma positionConfidence_eq:
  "positionConfidence w p =
     real_of_int (jsRound (max 0.3 (w - min 0.3 (real p * 0.05)) * 100)) / 100"
  by (simp add: positionConfidence_def Let_def)

lemma classify_phrase:
  assumes "sortBy phraseOrder (phraseMatches (trim (toLowerCase q))) = best # rest"
  shows "classifyPageIntent q =
     \<lparr>intent = phrase_intent best,
      intent_confidence =
        positionConfidence (phrase_weight best)
          (wordPosition (trim (toLowerCase q)) (phrase_position best)),
      matchedKeyword = Some (phrase best),
      position = int (wordPosition (trim (toLowerCase q)) (phrase_position best)),
      warnings = []\<rparr>"
  using assms by (simp add: classifyPageIntent_def Let_def)

lemma classify_single:
  assumes "phraseMatches (trim (toLowerCase q)) = []"
  shows "classifyPageIntent q =
     (case scanTokens 0 (splitWs (trim (toLowerCase q))) of
        Some r \<Rightarrow> r
      | None \<Rightarrow>
          \<lparr>intent = ''unknown'', intent_confidence = 0, matchedKeyword = None,
           position = - 1,
           warnings = [''No page intent keywords detected in query'']\<rparr>)"
  using assms by (simp add: classifyPageIntent_def Let_def sortBy_Nil)

lemma lq_landing_page_dashboard:
  "trim (toLowerCase ''landing page dashboard'') = ''landing page dashboard''"
  by code_simp

lemma phraseMatches_landing_page_dashboard:
  "phraseMatches ''landing page dashboard'' = [PhraseMatch ''landing page'' ''landing'' 1 0]"
  by code_simp

lemma wordPosition_landing: "wordPosition ''landing page dashboard'' 0 = 0"
  by code_simp

text \<open>
  Claim C5. Let \<open>lq\<close> be the query in lower case, trimmed, and \<open>r\<close> the result of
  \<open>classifyPageIntent\<close>. The phrase matches are the keywords with a space that occur in
  \<open>lq\<close>, each with its first position. If there is one, the result is that of a phrase
  match \<open>best\<close> that no other precedes: its position is the least, and its weight the
  greatest among those at that position; the result position is the number of words in
  front of it and the confidence is the weight minus \<open>min(0.3, wordPosition * 0.05)\<close>, at
  least 0.3, rounded to two decimals. Only if there is none are the single words scanned:
  the first token from the left that is a keyword without a space gives the result in the
  same way, with its index as position; and if no token is one, the result is
  \<open>unknown\<close> with confidence 0 and the warning. The query \<open>landing page dashboard\<close> has the
  intent \<open>landing\<close>.
\<close>

theorem classifyPageIntent_spec:
  assumes lq: "lq = trim (toLowerCase q)" and r: "r = classifyPageIntent q"
  shows "(\<forall>m. m \<in> set (phraseMatches lq) \<longleftrightarrow>
            (\<exists>intentType w kw pos. (intentType, w, kw) \<in> set intentEntries \<and>
               CHR '' '' \<in> set kw \<and> indexOf lq kw = Some pos \<and>
               m = PhraseMatch kw intentType w pos)) \<and>
         (phraseMatches lq \<noteq> [] \<longrightarrow>
            (\<exists>best\<in>set (phraseMatches lq).
               (\<forall>m\<in>set (phraseMatches lq).
                  phrase_position best < phrase_position m \<or>
                  (phrase_position best = phrase_position m \<and>
                   phrase_weight m \<le> phrase_weight best)) \<and>
               intent r = phrase_intent best \<and>
               matchedKeyword r = Some (phrase best) \<and>
               position r = int (wordPosition lq (phrase_position best)) \<and>
               intent_confidence r =
                 real_of_int (jsRound (max 0.3 (phrase_weight best -
                    min 0.3 (real (wordPosition lq (phrase_position best)) * 0.05)) * 100)) / 100 \<and>
               warnings r = [])) \<and>
         (phraseMatches lq = [] \<longrightarrow>
            (\<exists>i intentType w kw. i < length (splitWs lq) \<and>
               (intentType, w, kw) \<in> set intentEntries \<and> CHR '' '' \<notin> set kw \<and>
               splitWs lq ! i = kw \<and>
               (\<forall>j<i. \<forall>e\<in>set intentEntries. \<not> singleWord (splitWs lq ! j) e) \<and>
               intent r = intentType \<and> matchedKeyword r = Some kw \<and> position r = int i \<and>
               intent_confidence r =
                 real_of_int (jsRound (max 0.3 (w - min 0.3 (real i * 0.05)) * 100)) / 100 \<and>
               warnings r = []) \<or>
            ((\<forall>token\<in>set (splitWs lq). \<forall>e\<in>set intentEntries. \<not> singleWord token e) \<and>
             intent r = ''unknown'' \<and> intent_confidence r = 0 \<and> matchedKeyword r = None \<and>
             position r = - 1 \<and> warnings r = [''No page intent keywords detected in query''])) \<and>
         intent (classifyPageIntent ''landing page dashboard'') = ''landing''"
proof (intro conjI impI allI)
  fix m
  show "m \<in> set (phraseMatches lq) \<longleftrightarrow>
            (\<exists>intentType w kw pos. (intentType, w, kw) \<in> set intentEntries \<and>
               CHR '' '' \<in> set kw \<and> indexOf lq kw = Some pos \<and>
               m = PhraseMatch kw intentType w pos)"
    by (rule phraseMatches_mem)
next
  assume ne: "phraseMatches lq \<noteq> []"
  then obtain best rest where s: "sortBy phraseOrder (phraseMatches lq) = best # rest"
    by (cases "sortBy phraseOrder (phraseMatches lq)") (simp_all add: sortBy_empty_iff)
  from hd_sortBy_phraseOrder[OF s]
  have b: "best \<in> set (phraseMatches lq)" "\<forall>m\<in>set (phraseMatches lq). phraseOrder best m" by simp_all
  have c: "classifyPageIntent q =
     \<lparr>intent = phrase_intent best,
      intent_confidence =
        positionConfidence (phrase_weight best) (wordPosition lq (phrase_position best)),
      matchedKeyword = Some (phrase best),
      position = int (wordPosition lq (phrase_position best)),
      warnings = []\<rparr>"
    using classify_phrase[of q best rest] s lq by simp
  show "\<exists>best\<in>set (phraseMatches lq).
               (\<forall>m\<in>set (phraseMatches lq).
                  phrase_position best < phrase_position m \<or>
                  (phrase_position best = phrase_position m \<and>
                   phrase_weight m \<le> phrase_weight best)) \<and>
               intent r = phrase_intent best \<and>
               matchedKeyword r = Some (phrase best) \<and>
               position r = int (wordPosition lq (phrase_position best)) \<and>
               intent_confidence r =
                 real_of_int (jsRound (max 0.3 (phrase_weight best -
                    min 0.3 (real (wordPosition lq (phrase_position best)) * 0.05)) * 100)) / 100 \<and>
               warnings r = []"
  proof (rule bexI[OF _ b(1)], intro conjI)
    show "\<forall>m\<in>set (phraseMatches lq).
                  phrase_position best < phrase_position m \<or>
                  (phrase_position best = phrase_position m \<and>
                   phrase_weight m \<le> phrase_weight best)"
      using b(2) by (simp add: phraseOrder_iff)
    show "intent_confidence r =
                 real_of_int (jsRound (max 0.3 (phrase_weight best -
                    min 0.3 (real (wordPosition lq (phrase_position best)) * 0.05)) * 100)) / 100"
      unfolding r c positionConfidence_eq by simp
  qed (simp_all add: r c)
next
  assume e: "phraseMatches lq = []"
  have c: "classifyPageIntent q =
     (case scanTokens 0 (splitWs lq) of
        Some r \<Rightarrow> r
      | None \<Rightarrow>
          \<lparr>intent = ''unknown'', intent_confidence = 0, matchedKeyword = None,
           position = - 1,
           warnings = [''No page intent keywords detected in query'']\<rparr>)"
    using classify_single[of q] e lq by simp
  show "(\<exists>i intentType w kw. i < length (splitWs lq) \<and>
               (intentType, w, kw) \<in> set intentEntries \<and> CHR '' '' \<notin> set kw \<and>
               splitWs lq ! i = kw \<and>
               (\<forall>j<i. \<forall>e\<in>set intentEntries. \<not> singleWord (splitWs lq ! j) e) \<and>
               intent r = intentType \<and> matchedKeyword r = Some kw \<and> position r = int i \<and>
               intent_confidence r =
                 real_of_int (jsRound (max 0.3 (w - min 0.3 (real i * 0.05)) * 100)) / 100 \<and>
               warnings r = []) \<or>
            ((\<forall>token\<in>set (splitWs lq). \<forall>e\<in>set intentEntries. \<not> singleWord token e) \<and>
             intent r = ''unknown'' \<and> intent_confidence r = 0 \<and> matchedKeyword r = None \<and>
             position r = - 1 \<and> warnings r = [''No page intent keywords detected in query''])"
  proof (cases "scanTokens 0 (splitWs lq)")
    case None
    from scanTokens_None[OF None] None show ?thesis by (simp add: r c)
  next
    case (Some x)
    from scanTokens_Some[OF Some] obtain j intentType w kw where j: "j < length (splitWs lq)"
      "(intentType, w, kw) \<in> set intentEntries" "CHR '' '' \<notin> set kw" "splitWs lq ! j = kw"
      "\<forall>j'<j. \<forall>e\<in>set intentEntries. \<not> singleWord (splitWs lq ! j') e"
      "x = \<lparr>intent = intentType, intent_confidence = positionConfidence w (0 + j),
           matchedKeyword = Some kw, position = int (0 + j), warnings = []\<rparr>" by blast
    have rx: "r = x" using Some by (simp add: r c)
    have "\<exists>i intentType w kw. i < length (splitWs lq) \<and>
               (intentType, w, kw) \<in> set intentEntries \<and> CHR '' '' \<notin> set kw \<and>
               splitWs lq ! i = kw \<and>
               (\<forall>j<i. \<forall>e\<in>set intentEntries. \<not> singleWord (splitWs lq ! j) e) \<and>
               intent r = intentType \<and> matchedKeyword r = Some kw \<and> position r = int i \<and>
               intent_confidence r =
                 real_of_int (jsRound (max 0.3 (w - min 0.3 (real i * 0.05)) * 100)) / 100 \<and>
               warnings r = []"
      apply (rule exI[of _ j], rule exI[of _ intentType], rule exI[of _ w], rule exI[of _ kw])
      using j(1-5) unfolding rx j(6) positionConfidence_eq by simp
    then show ?thesis by (rule disjI1)
  qed
next
  have s: "sortBy phraseOrder (phraseMatches (trim (toLowerCase ''landing page dashboard''))) =
      PhraseMatch ''landing page'' ''landing'' 1 0 # []"
    unfolding lq_landing_page_dashboard phraseMatches_landing_page_dashboard
    by (simp add: sortBy_def)
  show "intent (classifyPageIntent ''landing page dashboard'') = ''landing''"
    unfolding classify_phrase[OF s] by simp
qed

text \<open>
  The query \<open>landing page dashboard\<close>: the one phrase match is \<open>landing page\<close> at
  position 0, of weight 1.
\<close>

theorem classifyPageIntent_spec_witness:
  "phraseMatches (trim (toLowerCase ''landing page dashboard'')) =
     [PhraseMatch ''landing page'' ''landing'' 1 0] \<and>
   intent (classifyPageIntent ''landing page dashboard'') = ''landing'' \<and>
   matchedKeyword (classifyPageIntent ''landing page dashboard'') = Some ''landing page'' \<and>
   position (classifyPageIntent ''landing page dashboard'') = 0 \<and>
   intent_confidence (classifyPageIntent ''landing page dashboard'') = 1"
proof -
  let ?q = "''landing page dashboard''"
  have pm: "phraseMatches (trim (toLowerCase ?q)) = [PhraseMatch ''landing page'' ''landing'' 1 0]"
    unfolding lq_landing_page_dashboard by (rule phraseMatches_landing_page_dashboard)
  have wp: "wordPosition (trim (toLowerCase ?q)) 0 = 0"
    unfolding lq_landing_page_dashboard by (rule wordPosition_landing)
  have j: "jsRound 100 = 100" by (simp add: jsRound_def)
  from classifyPageIntent_spec [OF refl refl, of ?q]
  have "intent (classifyPageIntent ?q) = ''landing'' \<and>
        matchedKeyword (classifyPageIntent ?q) = Some ''landing page'' \<and>
        position (classifyPageIntent ?q) = 0 \<and>
        intent_confidence (classifyPageIntent ?q) = 1"
    unfolding pm by (simp add: wp j)
  with pm show ?thesis by simp
qed



section \<open>Properties of the platform boost\<close>

subsection \<open>The error of rounding to a double\<close>

lemma ulp_eq: "ulp x = 2 powi (max (binaryExponent x) (- 1022) - 52)"
  by (simp add: ulp_def Let_def power_int_def power_one_over)

lemma powi_least: "(2::real) powi (- 1074) = 1 / 2 ^ 1074"
  by (simp add: power_int_def power_one_over)

lemma exponentUp_le: "1 \<le> x \<Longrightarrow> 2 powi exponentUp x \<le> x"
proof (induction x rule: exponentUp.induct)
  case (1 x)
  show ?case
  proof (cases "2 \<le> x")
    case True
    then have "2 powi exponentUp (x / 2) \<le> x / 2" using 1 by simp
    then have "2 powi (exponentUp (x / 2) + 1) \<le> x" by (simp add: power_int_add)
    then show ?thesis using True by (subst exponentUp.simps) simp
  next
    case False
    then show ?thesis using 1(2) by (subst exponentUp.simps) simp
  qed
qed

lemma exponentDown_le: "0 < x \<Longrightarrow> x < 1 \<Longrightarrow> 2 powi exponentDown x \<le> x"
proof (induction x rule: exponentDown.induct)
  case (1 x)
  have "2 powi exponentDown (x * 2) \<le> x * 2"
  proof (cases "x * 2 < 1")
    case True
    then show ?thesis using 1 by simp
  next
    case False
    then show ?thesis by (subst exponentDown.simps) simp
  qed
  then have "2 powi (exponentDown (x * 2) - 1) \<le> x" by (simp add: power_int_diff)
  then show ?case using 1(2,3) by (subst exponentDown.simps) simp
qed

lemma binaryExponent_le: "0 < x \<Longrightarrow> 2 powi binaryExponent x \<le> x"
  by (simp add: binaryExponent_def exponentUp_le exponentDown_le)

lemma ulp_le: 
  assumes "0 < x"
  shows "ulp x \<le> max (x / 2 ^ 52) (1 / 2 ^ 1074)"
proof (cases "- 1022 \<le> binaryExponent x")
  case True
  then have "ulp x = 2 powi (binaryExponent x - 52)" by (simp add: ulp_eq max_def)
  also have "\<dots> = 2 powi binaryExponent x / 2 ^ 52" by (simp add: power_int_diff)
  also have "\<dots> \<le> x / 2 ^ 52" using binaryExponent_le[OF assms] by (simp add: divide_right_mono)
  finally show ?thesis by simp
next
  case False
  then have "ulp x = 2 powi (- 1074)" by (simp add: ulp_eq max_def)
  also have "\<dots> = 1 / 2 ^ 1074" by (rule powi_least)
  finally show ?thesis by simp
qed

lemma ulp_ge: "1 / 2 ^ 1074 \<le> ulp x"
proof -
  have "(2::real) powi (- 1074) \<le> 2 powi (max (binaryExponent x) (- 1022) - 52)"
    by (rule power_int_increasing) simp_all
  then show ?thesis unfolding ulp_eq powi_least .
qed

lemma ulp_subnormal:
  assumes "0 < x" "x < 1 / 2 ^ 1022"
  shows "ulp x = 1 / 2 ^ 1074"
proof -
  have "(2::real) powi (- 1022) = 1 / 2 ^ 1022" by (simp add: power_int_def power_one_over)
  with binaryExponent_le[OF assms(1)] assms(2)
  have "(2::real) powi binaryExponent x < 2 powi (- 1022)" by linarith
  moreover have "(2::real) powi (- 1022) \<le> 2 powi binaryExponent x" if "- 1022 \<le> binaryExponent x"
    using that by (intro power_int_increasing) simp_all
  ultimately have "binaryExponent x < - 1022" by fastforce
  then have "max (binaryExponent x) (- 1022) - 52 = - 1074" by simp
  then show ?thesis unfolding ulp_eq using powi_least by simp
qed

lemma roundHalfEven_bounds:
  "real_of_int (roundHalfEven y) \<le> y + 1 / 2" "y - 1 / 2 \<le> real_of_int (roundHalfEven y)"
  unfolding roundHalfEven_def Let_def by (auto; linarith)+

lemma toDouble_bounds:
  assumes "0 < x"
  shows "toDouble x \<le> x + ulp x / 2" "x - ulp x / 2 \<le> toDouble x"
proof -
  have u: "0 < ulp x" by (rule ulp_pos)
  have t: "toDouble x = real_of_int (roundHalfEven (x / ulp x)) * ulp x"
    using assms by (simp add: toDouble_def)
  have "real_of_int (roundHalfEven (x / ulp x)) * ulp x \<le> (x / ulp x + 1 / 2) * ulp x"
    using roundHalfEven_bounds(1)[of "x / ulp x"] u by (simp add: mult_right_mono)
  also have "\<dots> = x + ulp x / 2" using u by (simp add: field_simps)
  finally show "toDouble x \<le> x + ulp x / 2" by (simp add: t)
  have "(x / ulp x - 1 / 2) * ulp x \<le> real_of_int (roundHalfEven (x / ulp x)) * ulp x"
    using roundHalfEven_bounds(2)[of "x / ulp x"] u by (simp add: mult_right_mono)
  moreover have "(x / ulp x - 1 / 2) * ulp x = x - ulp x / 2" using u by (simp add: field_simps)
  ultimately show "x - ulp x / 2 \<le> toDouble x" by (simp add: t)
qed

text \<open>A positive double is at least the least one.\<close>

lemma double_ge:
  assumes "toDouble s = s" "0 < s"
  shows "1 / 2 ^ 1074 \<le> s"
proof -
  have u: "0 < ulp s" by (rule ulp_pos)
  have t: "s = real_of_int (roundHalfEven (s / ulp s)) * ulp s"
    using assms by (simp add: toDouble_def)
  then have "0 < real_of_int (roundHalfEven (s / ulp s)) * ulp s" using assms(2) by simp
  then have "0 < roundHalfEven (s / ulp s)" using u by (simp add: zero_less_mult_iff)
  then have "1 \<le> real_of_int (roundHalfEven (s / ulp s))" by linarith
  then have "ulp s \<le> real_of_int (roundHalfEven (s / ulp s)) * ulp s"
    using u by (simp add: mult_le_cancel_right1)
  with t have "ulp s \<le> s" by simp
  with ulp_ge[of s] show ?thesis by linarith
qed

lemma toDouble_half: "toDouble (1 / 2) = 1 / 2" "toDouble (3 / 2) = 3 / 2"
  by code_simp+

lemma roundHalfEven_half: "roundHalfEven (1 / 2) = 0" "roundHalfEven (3 / 2) = 2"
  by (simp_all add: roundHalfEven_def Let_def)

lemma toDouble_pos_eq: "0 < x \<Longrightarrow> toDouble x = real_of_int (roundHalfEven (x / ulp x)) * ulp x"
  by (simp add: toDouble_def)

lemma toDouble_least:
  fixes u :: real
  assumes u: "u = 1 / 2 ^ 1074"
  shows "toDouble (u / 2) < toDouble (u * 3 / 2)"
proof -
  have pos: "0 < u" by (simp add: u)
  have small: "u / 2 < 1 / 2 ^ 1022" "u * 3 / 2 < 1 / 2 ^ 1022" by (simp_all add: u)
  have "ulp (u / 2) = 1 / 2 ^ 1074" using pos by (intro ulp_subnormal[OF _ small(1)]) simp
  then have a: "ulp (u / 2) = u" using u by metis
  have "ulp (u * 3 / 2) = 1 / 2 ^ 1074" using pos by (intro ulp_subnormal[OF _ small(2)]) simp
  then have b: "ulp (u * 3 / 2) = u" using u by metis
  have qa: "u / 2 / u = 1 / 2" using pos by simp
  have qb: "u * 3 / 2 / u = 3 / 2" using pos by simp
  have "toDouble (u / 2) = real_of_int (roundHalfEven (u / 2 / ulp (u / 2))) * ulp (u / 2)"
    using pos by (intro toDouble_pos_eq) simp
  then have ta: "toDouble (u / 2) = 0" unfolding a qa roundHalfEven_half by simp
  have "toDouble (u * 3 / 2) =
      real_of_int (roundHalfEven (u * 3 / 2 / ulp (u * 3 / 2))) * ulp (u * 3 / 2)"
    using pos by (intro toDouble_pos_eq) simp
  then have tb: "toDouble (u * 3 / 2) = 2 * u" unfolding b qb roundHalfEven_half by simp
  from ta tb pos show ?thesis by simp
qed

lemma toDouble_half_less:
  assumes d: "toDouble s = s" and pos: "0 < s"
  shows "toDouble (s / 2) < toDouble (s * 3 / 2)"
proof (cases "s = 1 / 2 ^ 1074")
  case True
  then show ?thesis by (rule toDouble_least)
next
  case False
  define u :: real where "u = 1 / 2 ^ 1074"
  have upos: "0 < u" by (simp add: u_def)
  have su: "u < s" using double_ge[OF d pos] False unfolding u_def by linarith
  have a: "toDouble (s / 2) \<le> s / 2 + ulp (s / 2) / 2"
    using pos by (intro toDouble_bounds) simp
  have b: "s * 3 / 2 - ulp (s * 3 / 2) / 2 \<le> toDouble (s * 3 / 2)"
    using pos by (intro toDouble_bounds) simp
  have ua: "ulp (s / 2) \<le> max (s / 2 / 2 ^ 52) u"
    unfolding u_def using pos by (intro ulp_le) simp
  have ub: "ulp (s * 3 / 2) \<le> max (s * 3 / 2 / 2 ^ 52) u"
    unfolding u_def using pos by (intro ulp_le) simp
  have "ulp (s / 2) / 2 + ulp (s * 3 / 2) / 2 < s"
  proof -
    consider "s / 2 / 2 ^ 52 \<le> u" "s * 3 / 2 / 2 ^ 52 \<le> u"
      | "s / 2 / 2 ^ 52 \<le> u" "u < s * 3 / 2 / 2 ^ 52"
      | "u < s / 2 / 2 ^ 52" by linarith
    then show ?thesis
    proof cases
      case 1
      then have "ulp (s / 2) \<le> u" "ulp (s * 3 / 2) \<le> u" using ua ub by (simp_all add: max_def)
      then show ?thesis using su by linarith
    next
      case 2
      then have "ulp (s / 2) \<le> u" "ulp (s * 3 / 2) \<le> s * 3 / 2 / 2 ^ 52"
        using ua ub by (simp_all add: max_def)
      moreover have "s * 3 / 2 / 2 ^ 52 \<le> s / 2" using pos by simp
      ultimately show ?thesis using su pos by linarith
    next
      case 3
      then have "u < s * 3 / 2 / 2 ^ 52" using pos by simp
      with 3 have "ulp (s / 2) \<le> s / 2 / 2 ^ 52" "ulp (s * 3 / 2) \<le> s * 3 / 2 / 2 ^ 52"
        using ua ub by (simp_all add: max_def)
      moreover have "s / 2 / 2 ^ 52 \<le> s / 2" "s * 3 / 2 / 2 ^ 52 \<le> s / 2" using pos by simp_all
      ultimately show ?thesis using pos by linarith
    qed
  qed
  with a b show ?thesis by linarith
qed

lemma doubleTimes_half_less:
  assumes "toDouble s = s" "0 < s"
  shows "doubleTimes s 0.5 < doubleTimes s 1.5"
proof -
  have "doubleTimes s (1 / 2) = toDouble (s / 2)" "doubleTimes s (3 / 2) = toDouble (s * 3 / 2)"
    by (simp_all add: doubleTimes_def toDouble_half assms(1))
  with toDouble_half_less[OF assms] show ?thesis by simp
qed

lemma toDouble_2: "toDouble 2 = 2"
  by code_simp

subsection \<open>The boost\<close>

lemma includes_mobile:
  "\<not> includes_str ''web'' ''mobile''" "\<not> includes_str ''cross-platform'' ''mobile''"
  "includes_str ''mobile-ios'' ''mobile''" "includes_str ''mobile-android'' ''mobile''"
  "includes_str ''mobile-generic'' ''mobile''"
  by code_simp+

lemma mergeConfig_noConfig: "mergeConfig noConfig = DEFAULT_PLATFORM_BOOST_CONFIG"
  by (simp add: mergeConfig_def noConfig_def DEFAULT_PLATFORM_BOOST_CONFIG_def)

lemma boostOf_spec:
  assumes "p \<in> {''web'', ''mobile-ios'', ''mobile-android'', ''mobile-generic'', ''cross-platform''}"
    and "tag \<in> {''web'', ''mobile'', ''both''}"
  shows "boostOf DEFAULT_PLATFORM_BOOST_CONFIG p tag = factor_spec p tag"
  using assms
  by (auto simp: boostOf_def factor_spec_def DEFAULT_PLATFORM_BOOST_CONFIG_def includes_mobile Let_def)

lemma platformSupport_default:
  "map_of d ''Platform_Support'' = None \<Longrightarrow> platformSupport d = ''web''"
proof -
  have "trim (toLowerCase ''web'') = ''web''" by code_simp
  then show "map_of d ''Platform_Support'' = None \<Longrightarrow> platformSupport d = ''web''"
    by (simp add: platformSupport_def)
qed

lemma itemScoreDesc_iff: "itemScoreDesc x y \<longleftrightarrow> item_score y \<le> item_score x"
  by (simp add: itemScoreDesc_def)

lemma applyPlatformBoost_eq:
  assumes p: "p \<in> {''web'', ''mobile-ios'', ''mobile-android'', ''mobile-generic'', ''cross-platform''}"
    and tags: "\<forall>r\<in>set rs. platformSupport (item_data r) \<in> {''web'', ''mobile'', ''both''}"
  shows "applyPlatformBoost rs p = sortBy itemScoreDesc (map (boosted p) rs)"
proof -
  have ne: "p \<noteq> []" using p by auto
  have m: "map (\<lambda>result. result\<lparr>item_score := doubleTimes (item_score result)
              (boostOf DEFAULT_PLATFORM_BOOST_CONFIG p (platformSupport (item_data result)))\<rparr>) rs =
           map (boosted p) rs"
    using tags boostOf_spec[OF p] by (intro map_cong) (simp_all add: boosted_def)
  show ?thesis
  proof (cases "rs = []")
    case True
    then show ?thesis
      by (simp add: applyPlatformBoost_def applyPlatformBoostWith_def Let_def sortBy_Nil)
  next
    case False
    have en: "enabled DEFAULT_PLATFORM_BOOST_CONFIG"
      by (simp add: DEFAULT_PLATFORM_BOOST_CONFIG_def)
    from False show ?thesis
      unfolding applyPlatformBoost_def applyPlatformBoostWith_def Let_def mergeConfig_noConfig
      using ne en by (simp add: m)
  qed
qed

lemma sorted_wrt_nth_less:
  assumes "sorted_wrt P xs" "i < j" "j < length xs"
  shows "P (xs ! i) (xs ! j)"
  using assms by (simp add: sorted_wrt_iff_nth_less)

text \<open>
  Claim C6. Let the detected platform \<open>p\<close> be one of web, mobile-ios, mobile-android,
  mobile-generic and cross-platform, and let every result have the tag web, mobile or
  both, where a result without the field \<open>Platform_Support\<close> has the tag web. Then
  \<open>applyPlatformBoost\<close> returns the results sorted by descending adjusted score, results
  of equal adjusted score in their order, where the adjusted score is the score times the
  factor of the specification (\<open>boosted\<close>: 1.5 for a tag that matches the platform, 0.5 for
  one that does not, and 1.5, 1.2, 1 for both, mobile, web when the platform is
  cross-platform), the product of the doubles. For the platform mobile-ios and results of
  one base score \<open>s\<close>, a positive double as the scores of \<open>search\<close> are, every result
  tagged both or mobile comes before every result tagged web.
\<close>

theorem applyPlatformBoost_spec:
  assumes p: "p \<in> {''web'', ''mobile-ios'', ''mobile-android'', ''mobile-generic'', ''cross-platform''}"
    and tags: "\<forall>r\<in>set rs. platformSupport (item_data r) \<in> {''web'', ''mobile'', ''both''}"
    and out: "out = applyPlatformBoost rs p"
  shows "out = sortBy itemScoreDesc (map (boosted p) rs) \<and>
         length out = length rs \<and>
         set out = boosted p ` set rs \<and>
         sorted_wrt (\<lambda>x y. item_score y \<le> item_score x) out \<and>
         (\<forall>t. filter (\<lambda>r. item_score r = t) out =
              filter (\<lambda>r. item_score r = t) (map (boosted p) rs)) \<and>
         (\<forall>d. map_of d ''Platform_Support'' = None \<longrightarrow> platformSupport d = ''web'') \<and>
         (p = ''mobile-ios'' \<and> (\<forall>r\<in>set rs. item_score r = s) \<and> toDouble s = s \<and> 0 < s \<longrightarrow>
            (\<forall>i j. i < length out \<and> j < length out \<and>
               platformSupport (item_data (out ! i)) \<in> {''both'', ''mobile''} \<and>
               platformSupport (item_data (out ! j)) = ''web'' \<longrightarrow> i < j))"
proof -
  have eq: "out = sortBy itemScoreDesc (map (boosted p) rs)"
    using applyPlatformBoost_eq[OF p tags] out by simp
  have len: "length out = length rs" by (simp add: eq length_sortBy)
  have st: "set out = boosted p ` set rs" by (simp add: eq set_sortBy)
  have "sorted_wrt itemScoreDesc out"
    unfolding eq by (rule sorted_sortBy) (auto simp: itemScoreDesc_iff)
  then have srt: "sorted_wrt (\<lambda>x y. item_score y \<le> item_score x) out"
    by (simp add: itemScoreDesc_iff[abs_def])
  have stable: "filter (\<lambda>r. item_score r = t) out =
      filter (\<lambda>r. item_score r = t) (map (boosted p) rs)" for t
    unfolding eq by (rule filter_sortBy_tied) (simp add: itemScoreDesc_iff)
  have order: "i < j" if ios: "p = ''mobile-ios''" and same: "\<forall>r\<in>set rs. item_score r = s"
    and dbl: "toDouble s = s" and pos: "0 < s"
    and i: "i < length out" and j: "j < length out"
    and ti: "platformSupport (item_data (out ! i)) \<in> {''both'', ''mobile''}"
    and tj: "platformSupport (item_data (out ! j)) = ''web''" for i j
  proof (rule ccontr)
    assume "\<not> i < j"
    moreover have "i \<noteq> j" using ti tj by auto
    ultimately have ji: "j < i" by simp
    have sc: "item_score x = doubleTimes s (factor_spec p (platformSupport (item_data x)))"
      if "x \<in> set out" for x
      using that same unfolding st by (auto simp: boosted_def)
    have "item_score (out ! i) = doubleTimes s 1.5"
      using sc[of "out ! i"] i ti ios by (auto simp: factor_spec_def)
    moreover have "item_score (out ! j) = doubleTimes s 0.5"
      using sc[of "out ! j"] j tj ios by (auto simp: factor_spec_def)
    moreover have "item_score (out ! i) \<le> item_score (out ! j)"
      using sorted_wrt_nth_less[OF srt ji i] .
    ultimately show False using doubleTimes_half_less[OF dbl pos] by simp
  qed
  show ?thesis
    using eq len st srt stable platformSupport_default order by blast
qed

lemma tags_layoutResults:
  "map (\<lambda>r. platformSupport (item_data r)) layoutResults = [''web'', ''mobile'', ''both'', ''web'']"
  by code_simp

lemma doubleTimes_2: "doubleTimes 2 (3 / 2) = 3" "doubleTimes 2 (1 / 2) = 1"
  by code_simp+

lemma boost_layoutResults:
  "sortBy itemScoreDesc (map (boosted ''mobile-ios'') layoutResults) =
     [\<lparr>item_data = [(''Pattern Name'', ''m''), (''Platform_Support'', ''mobile'')], item_score = 3\<rparr>,
      \<lparr>item_data = [(''Pattern Name'', ''b''), (''Platform_Support'', ''both'')], item_score = 3\<rparr>,
      \<lparr>item_data = [(''Pattern Name'', ''w''), (''Platform_Support'', ''web'')], item_score = 1\<rparr>,
      \<lparr>item_data = [(''Pattern Name'', ''l'')], item_score = 1\<rparr>]"
  using tags_layoutResults
  by (simp add: layoutResults_def boosted_def factor_spec_def sortBy_def itemScoreDesc_def
      doubleTimes_2)

text \<open>
  The four example results of score 2 with the platform mobile-ios: mobile and both get
  the score 3, the two web results the score 1.
\<close>

theorem applyPlatformBoost_spec_witness:
  "applyPlatformBoost layoutResults ''mobile-ios'' =
     [\<lparr>item_data = [(''Pattern Name'', ''m''), (''Platform_Support'', ''mobile'')], item_score = 3\<rparr>,
      \<lparr>item_data = [(''Pattern Name'', ''b''), (''Platform_Support'', ''both'')], item_score = 3\<rparr>,
      \<lparr>item_data = [(''Pattern Name'', ''w''), (''Platform_Support'', ''web'')], item_score = 1\<rparr>,
      \<lparr>item_data = [(''Pattern Name'', ''l'')], item_score = 1\<rparr>] \<and>
   map item_score layoutResults = [2, 2, 2, 2] \<and> toDouble 2 = 2 \<and> (0::real) < 2"
proof -
  have p: "''mobile-ios'' \<in> {''web'', ''mobile-ios'', ''mobile-android'', ''mobile-generic'', ''cross-platform''}"
    by simp
  have tags: "\<forall>r\<in>set layoutResults. platformSupport (item_data r) \<in> {''web'', ''mobile'', ''both''}"
    using tags_layoutResults by (simp add: layoutResults_def)
  have same: "map item_score layoutResults = [2, 2, 2, 2]" by (simp add: layoutResults_def)
  from applyPlatformBoost_spec [OF p tags refl, of 2]
  have "applyPlatformBoost layoutResults ''mobile-ios'' =
      sortBy itemScoreDesc (map (boosted ''mobile-ios'') layoutResults)" by blast
  with same toDouble_2 show ?thesis by (simp add: boost_layoutResults)
qed


end
